theory Spec2Isabelle
  imports Complex_Main
begin

section \<open>Common conventions\<close>

text \<open>
  The routines verified here are \<^verbatim>\<open>XLALInspiralGenerateIIRSet\<close>,
  \<^verbatim>\<open>XLALInspiralIIRSetResponse\<close>, \<^verbatim>\<open>XLALInspiralGenerateIIRSetFourierTransform\<close> and
  \<^verbatim>\<open>XLALInspiralCalculateIIRSetInnerProduct\<close> of \<^verbatim>\<open>LALInspiralIIR.c\<close>, and
  \<^verbatim>\<open>TestLALDemod\<close> in its generic configuration (none of the \<^verbatim>\<open>USE_...\<close> macros defined).

  Numbers. \<^verbatim>\<open>REAL4\<close>, \<^verbatim>\<open>REAL8\<close>, \<^verbatim>\<open>COMPLEX8\<close> and \<^verbatim>\<open>COMPLEX16\<close> values are modelled by
  \<^typ>\<open>real\<close> and \<^typ>\<open>complex\<close>: rounding and overflow of finite floating-point
  results are not modelled. What IEEE arithmetic does where the real-number operation does
  not exist (a zero divisor, the root of a negative number) is written out wherever the
  control flow of the program depends on the result (the step of the synthesizer, the
  truncation length of the evaluator). Where only a stored value depends on it (the
  transform of a filter with \<open>a1 = 0\<close>, a PSD entry or a product \<open>M \<cdot> D\<close> equal to 0) the C
  value is an infinity or a NaN and the model has no counterpart for it; the statements
  about such values below are made for nonzero divisors, or have the same quotient on
  both sides. \<^verbatim>\<open>INT4\<close> and \<^verbatim>\<open>int\<close> values are
  \<^typ>\<open>int\<close>; vectors are shorter than \<open>2^31\<close> elements, so that index arithmetic
  does not wrap. The one comparison of the program that mixes \<^verbatim>\<open>INT4\<close> and \<^verbatim>\<open>UINT4\<close> has
  its conversion modulo \<open>2^32\<close> written out.

  Outcomes. A routine either returns an XLAL error code, or returns normally, or runs
  into behaviour that C leaves undefined (the conversion of a floating-point value that
  an \<^verbatim>\<open>int\<close> cannot hold, an access outside a vector); the last is the outcome
  \<open>Undefined\<close> of the model, so that no statement about a normal return silently
  covers such a run.
\<close>

datatype fault =
    XLAL_EINVAL | XLAL_EBADLEN
  | COMPUTEFSTAT_ENULL | COMPUTEFSTAT_EINPUT | COMPUTEFSTAT_EXIT_DEMOD
  | Undefined

text \<open>Conversion of a finite \<^verbatim>\<open>double\<close> to \<^verbatim>\<open>int\<close>: truncation toward zero, undefined when
  the truncated value is not representable.\<close>

definition trunc :: "real \<Rightarrow> int" where
  "trunc x = (if 0 \<le> x then \<lfloor>x\<rfloor> else \<lceil>x\<rceil>)"

definition int_of_double :: "real \<Rightarrow> int option" where
  "int_of_double x =
     (if - (2 ^ 31) \<le> trunc x \<and> trunc x < 2 ^ 31 then Some (trunc x) else None)"

text \<open>Conversion of a finite \<^verbatim>\<open>double\<close> to \<^verbatim>\<open>UINT4\<close>.\<close>

definition uint_of_double :: "real \<Rightarrow> int option" where
  "uint_of_double x =
     (if 0 \<le> trunc x \<and> trunc x < 2 ^ 32 then Some (trunc x) else None)"

text \<open>The values a \<^verbatim>\<open>double\<close> expression takes when a divisor may be zero.\<close>

datatype REAL8 = Fin real | PInf | MInf | NaN

text \<open>\<^verbatim>\<open>x / y\<close> for finite \<open>x\<close> and a finite divisor \<open>y\<close> that is the result of \<^verbatim>\<open>fabs\<close>
  (so a zero divisor is \<open>+0\<close>).\<close>

definition fdiv :: "real \<Rightarrow> real \<Rightarrow> REAL8" where
  "fdiv x y =
     (if y \<noteq> 0 then Fin (x / y)
      else if 0 < x then PInf else if x < 0 then MInf else NaN)"

fun fsqrt :: "REAL8 \<Rightarrow> REAL8" where
  "fsqrt (Fin r) = (if 0 \<le> r then Fin (sqrt r) else NaN)"
| "fsqrt PInf = PInf"
| "fsqrt MInf = NaN"
| "fsqrt NaN = NaN"

text \<open>\<^verbatim>\<open>pow(x, 1./3)\<close>: a negative finite base with a non-integer exponent is a domain
  error; both infinities give \<open>+\<infinity>\<close> (the exponent is positive and not an odd integer).\<close>

fun fpow_third :: "REAL8 \<Rightarrow> REAL8" where
  "fpow_third (Fin r) = (if 0 \<le> r then Fin (r powr (1 / 3)) else NaN)"
| "fpow_third PInf = PInf"
| "fpow_third MInf = PInf"
| "fpow_third NaN = NaN"

text \<open>\<^verbatim>\<open>floor(x + 0.5)\<close>.\<close>

fun ffloor_half :: "REAL8 \<Rightarrow> REAL8" where
  "ffloor_half (Fin r) = Fin (of_int \<lfloor>r + 0.5\<rfloor>)"
| "ffloor_half PInf = PInf"
| "ffloor_half MInf = MInf"
| "ffloor_half NaN = NaN"

text \<open>\<^verbatim>\<open>x > y\<close>: false as soon as one side is a NaN.\<close>

fun fgt :: "REAL8 \<Rightarrow> REAL8 \<Rightarrow> bool" where
  "fgt NaN _ = False"
| "fgt _ NaN = False"
| "fgt (Fin a) (Fin b) = (b < a)"
| "fgt PInf PInf = False"
| "fgt PInf _ = True"
| "fgt MInf _ = False"
| "fgt (Fin a) PInf = False"
| "fgt (Fin a) MInf = True"

text \<open>\<^verbatim>\<open>(int) x\<close>: undefined for an infinity or a NaN.\<close>

fun REAL8_to_int :: "REAL8 \<Rightarrow> int option" where
  "REAL8_to_int (Fin r) = int_of_double r"
| "REAL8_to_int _ = None"

text \<open>\<^verbatim>\<open>cpolar(r, theta)\<close>, the complex number \<open>r \<cdot> exp(i \<cdot> theta)\<close>.\<close>

definition cpolar :: "real \<Rightarrow> real \<Rightarrow> complex" where
  "cpolar r theta = rcis r theta"

text \<open>\<^verbatim>\<open>v->data[i]\<close> for an index known to be inside the vector; every use below is
  guarded by \<open>in_vec\<close>.\<close>

definition in_vec :: "'a list \<Rightarrow> int \<Rightarrow> bool" where
  "in_vec v i = (0 \<le> i \<and> i < int (length v))"

definition vec_at :: "'a list \<Rightarrow> int \<Rightarrow> 'a" where
  "vec_at v i = v ! nat i"


section \<open>The IIR filter-set synthesizer\<close>

text \<open>The three output vectors \<^verbatim>\<open>*a1\<close>, \<^verbatim>\<open>*b0\<close> and \<^verbatim>\<open>*delay\<close>, which grow together.\<close>

record iir_set =
  set_a1 :: "complex list"
  set_b0 :: "complex list"
  set_delay :: "int list"

text \<open>Lines 74 to 85: the second and third phase differences at the cursor \<open>j\<close>, over
  \<open>2\<pi>\<close>, in absolute value. \<open>None\<close> stands for a read outside \<^verbatim>\<open>phase\<close>.\<close>

definition derivative_terms :: "real list \<Rightarrow> int \<Rightarrow> (real \<times> real) option" where
  "derivative_terms phase j =
     (if j > int (length phase) - 3 then
        (if in_vec phase (j - 3) \<and> in_vec phase j then
           Some (\<bar>(vec_at phase (j - 2) - 2 * vec_at phase (j - 1) + vec_at phase j) / (2 * pi)\<bar>,
                 \<bar>(vec_at phase (j - 3) - 3 * vec_at phase (j - 2) + 3 * vec_at phase (j - 1)
                     - vec_at phase j) / (2 * pi)\<bar>)
         else None)
      else
        (if in_vec phase (j - 2) \<and> in_vec phase (j + 2) then
           Some (\<bar>(vec_at phase (j - 1) - 2 * vec_at phase j + vec_at phase (j + 1)) / (2 * pi)\<bar>,
                 \<bar>(- 0.5 * vec_at phase (j - 2) + vec_at phase (j - 1) - vec_at phase (j + 1)
                     + 0.5 * vec_at phase (j + 2)) / (2 * pi)\<bar>)
         else None))"

text \<open>Lines 88 to 100: the two candidate steps, the smaller one converted to \<^verbatim>\<open>int\<close>,
  and the floor of 2.\<close>

definition jstep_second :: "real \<Rightarrow> real \<Rightarrow> REAL8" where
  "jstep_second epsilon phase_ddot = ffloor_half (fsqrt (fdiv (2 * epsilon) phase_ddot))"

definition jstep_third :: "real \<Rightarrow> real \<Rightarrow> REAL8" where
  "jstep_third epsilon phase_tdot = ffloor_half (fpow_third (fdiv (6 * epsilon) phase_tdot))"

definition choose_jstep :: "real \<Rightarrow> real \<Rightarrow> real \<Rightarrow> int option" where
  "choose_jstep epsilon phase_ddot phase_tdot =
     (case REAL8_to_int
             (if fgt (jstep_third epsilon phase_tdot) (jstep_second epsilon phase_ddot)
              then jstep_second epsilon phase_ddot
              else jstep_third epsilon phase_tdot) of
        None \<Rightarrow> None
      | Some jstep \<Rightarrow> Some (if jstep < 2 then 2 else jstep))"

text \<open>Lines 102 and 106: \<^verbatim>\<open>k = (int) floor((double) j - alpha * (double) jstep + 0.5)\<close>.\<close>

definition anchor :: "int \<Rightarrow> real \<Rightarrow> int \<Rightarrow> int option" where
  "anchor j alpha jstep =
     int_of_double (of_int \<lfloor>of_int j - alpha * of_int jstep + 0.5\<rfloor>)"

text \<open>Lines 115 to 123: the first derivative of the phase at the anchor \<open>k\<close>.\<close>

definition phase_dot_at :: "real list \<Rightarrow> int \<Rightarrow> int \<Rightarrow> real option" where
  "phase_dot_at phase n k =
     (if k > n - 3 then
        (if in_vec phase (k - 3) \<and> in_vec phase k then
           Some (11 / 6 * vec_at phase k - 3 * vec_at phase (k - 1) + 1.5 * vec_at phase (k - 2)
                   - 1 / 3 * vec_at phase (k - 3))
         else None)
      else if k \<ge> 2 then
        (if in_vec phase (k - 2) \<and> in_vec phase (k + 2) then
           Some ((- vec_at phase (k + 2) + 8 * (vec_at phase (k + 1) - vec_at phase (k - 1))
                    + vec_at phase (k - 2)) / 12)
         else None)
      else
        (if in_vec phase k \<and> in_vec phase (k + 3) then
           Some (- 11 / 6 * vec_at phase k + 3 * vec_at phase (k + 1) - 1.5 * vec_at phase (k + 2)
                   + 1 / 3 * vec_at phase (k + 3))
         else None))"

text \<open>One pass through the body of the \<^verbatim>\<open>while\<close> loop (lines 73 to 137) at the cursor
  \<open>j\<close>: the step, the anchor, and the filter record \<open>(a1, b0, delay)\<close> that the pass
  appends. The error of line 112 is raised before anything is appended.\<close>

definition iir_body ::
  "real list \<Rightarrow> real list \<Rightarrow> real \<Rightarrow> real \<Rightarrow> real \<Rightarrow> int
     \<Rightarrow> fault + (int \<times> int \<times> complex \<times> complex \<times> int)" where
  "iir_body amp phase epsilon alpha beta j =
     (case derivative_terms phase j of
        None \<Rightarrow> Inl Undefined
      | Some (phase_ddot, phase_tdot) \<Rightarrow>
     (case choose_jstep epsilon phase_ddot phase_tdot of
        None \<Rightarrow> Inl Undefined
      | Some jstep0 \<Rightarrow>
     (case anchor j alpha jstep0 of
        None \<Rightarrow> Inl Undefined
      | Some k0 \<Rightarrow>
     (case (if k0 < 1 then map_option (Pair j) (anchor j alpha j) else Some (jstep0, k0)) of
        None \<Rightarrow> Inl Undefined
      | Some (jstep, k) \<Rightarrow>
     if k < 0 then Inl XLAL_EINVAL
     else
     (case phase_dot_at phase (int (length amp)) k of
        None \<Rightarrow> Inl Undefined
      | Some phase_dot \<Rightarrow>
     if \<not> in_vec amp k then Inl Undefined
     else Inr (jstep, k,
               cpolar (exp (- beta / of_int jstep)) (- phase_dot),
               cpolar (vec_at amp k) (vec_at phase k + phase_dot * of_int (j - k)),
               int (length amp) - 1 - j))))))"

lemma choose_jstep_ge2: "choose_jstep epsilon pd pt = Some jstep \<Longrightarrow> 2 \<le> jstep"
  by (auto simp: choose_jstep_def split: option.splits if_splits)

lemma iir_body_jstep:
  assumes "iir_body amp phase epsilon alpha beta j = Inr (jstep, k, a, b, d)" and "3 < j"
  shows "2 \<le> jstep"
  using assms
  by (auto simp: iir_body_def split: option.splits if_splits dest!: choose_jstep_ge2)

text \<open>The \<^verbatim>\<open>while (j > 3)\<close> loop of lines 71 to 145.\<close>

function iir_loop ::
  "real list \<Rightarrow> real list \<Rightarrow> real \<Rightarrow> real \<Rightarrow> real \<Rightarrow> int \<Rightarrow> iir_set \<Rightarrow> fault + iir_set" where
  "iir_loop amp phase epsilon alpha beta j acc =
     (if j > 3 then
        (case iir_body amp phase epsilon alpha beta j of
           Inl e \<Rightarrow> Inl e
         | Inr (jstep, k, a, b, d) \<Rightarrow>
             (let acc' = \<lparr>set_a1 = set_a1 acc @ [a], set_b0 = set_b0 acc @ [b],
                          set_delay = set_delay acc @ [d]\<rparr>
              in if k < 2 then Inr acc'
                 else iir_loop amp phase epsilon alpha beta (j - jstep) acc'))
      else Inr acc)"
  by pat_completeness auto
termination
proof (relation "measure (\<lambda>(amp, phase, epsilon, alpha, beta, j, acc). nat j)", goal_cases)
  case 1
  show ?case by simp
next
  case (2 amp phase epsilon alpha beta j acc x2 jstep y k ya a yb b d acc')
  then have "2 \<le> jstep"
    using iir_body_jstep [of amp phase epsilon alpha beta j jstep k a b d] by simp
  with 2 show ?case by simp
qed

declare iir_loop.simps [simp del]

text \<open>\<^verbatim>\<open>XLALInspiralGenerateIIRSet\<close>. The parameters \<^verbatim>\<open>padding\<close> and \<^verbatim>\<open>iir_type_flag\<close> only
  select warnings that are printed; they are kept as arguments.\<close>

definition XLALInspiralGenerateIIRSet ::
  "real list \<Rightarrow> real list \<Rightarrow> real \<Rightarrow> real \<Rightarrow> real \<Rightarrow> real \<Rightarrow> nat \<Rightarrow> fault + iir_set" where
  "XLALInspiralGenerateIIRSet amp phase epsilon alpha beta padding iir_type_flag =
     (if length amp \<noteq> length phase then Inl XLAL_EINVAL
      else iir_loop amp phase epsilon alpha beta (int (length amp) - 1)
             \<lparr>set_a1 = [], set_b0 = [], set_delay = []\<rparr>)"



text \<open>The walk of the cursor as the specification describes it, for comparison with the
  loop: from the cursor \<open>j\<close> the walk is over as soon as \<open>j > 3\<close> fails; otherwise the
  pass at \<open>j\<close> appends its record, and the walk ends there when the anchor \<open>k\<close> is below
  2 and goes on from \<open>j - jstep\<close> when it is not.\<close>

inductive iir_walk ::
  "real list \<Rightarrow> real list \<Rightarrow> real \<Rightarrow> real \<Rightarrow> real \<Rightarrow> int \<Rightarrow> (complex \<times> complex \<times> int) list \<Rightarrow> bool"
  for amp phase epsilon alpha beta where
  walk_done: "\<not> 3 < j \<Longrightarrow> iir_walk amp phase epsilon alpha beta j []"
| walk_break:
    "3 < j \<Longrightarrow> iir_body amp phase epsilon alpha beta j = Inr (jstep, k, a, b, d) \<Longrightarrow> k < 2 \<Longrightarrow>
     iir_walk amp phase epsilon alpha beta j [(a, b, d)]"
| walk_step:
    "3 < j \<Longrightarrow> iir_body amp phase epsilon alpha beta j = Inr (jstep, k, a, b, d) \<Longrightarrow> \<not> k < 2 \<Longrightarrow>
     iir_walk amp phase epsilon alpha beta (j - jstep) records \<Longrightarrow>
     iir_walk amp phase epsilon alpha beta j ((a, b, d) # records)"


section \<open>The IIR filter-set evaluator\<close>

text \<open>Line 169: \<^verbatim>\<open>length = (int) (logf(1e-13))/(logf(cabs(*a1f)))\<close>. The cast applies to
  \<^verbatim>\<open>logf(1e-13)\<close> alone; the quotient of that integer by the logarithm is then converted
  to \<^verbatim>\<open>int\<close> by the assignment. For \<open>|a1| = 0\<close> the divisor is \<open>-\<infinity>\<close> and the quotient
  is 0; for \<open>|a1| = 1\<close> the divisor is 0, the quotient is infinite and its conversion is
  undefined.\<close>

definition truncation_length :: "complex \<Rightarrow> int option" where
  "truncation_length a =
     (if cmod a = 0 then Some 0
      else if cmod a = 1 then None
      else int_of_double (of_int (trunc (ln (1 / 10 ^ 13))) / ln (cmod a)))"

text \<open>Lines 178 to 182, the inner loop run \<open>n\<close> times from the position \<open>pos\<close>:
  \<^verbatim>\<open>y *= *a1f; *response_data += y; response_data++\<close>. \<open>None\<close> stands for a write
  outside \<^verbatim>\<open>response\<close>.\<close>

fun filter_response ::
  "complex \<Rightarrow> complex \<Rightarrow> int \<Rightarrow> nat \<Rightarrow> complex list \<Rightarrow> complex list option" where
  "filter_response a y pos 0 response = Some response"
| "filter_response a y pos (Suc n) response =
     (if in_vec response pos
      then filter_response a (y * a) (pos + 1) n
             (response[nat pos := vec_at response pos + y * a])
      else None)"

text \<open>Lines 166 to 185, the loop over the filters; the three pointers advance together.
  The result is the status and the buffer as the routine leaves it.\<close>

fun response_filters ::
  "complex list \<Rightarrow> complex list \<Rightarrow> int list \<Rightarrow> complex list \<Rightarrow> fault option \<times> complex list" where
  "response_filters (a # a1) (b # b0) (d # delay) response =
     (case truncation_length a of
        None \<Rightarrow> (Some Undefined, response)
      | Some len \<Rightarrow>
          (let maxlength = int (length response) - d;
               len' = (if len > maxlength then maxlength else len)
           in case filter_response a (b / a) d (nat len') response of
                None \<Rightarrow> (Some Undefined, response)
              | Some response' \<Rightarrow> response_filters a1 b0 delay response'))"
| "response_filters _ _ _ response = (None, response)"

definition XLALInspiralIIRSetResponse ::
  "complex list \<Rightarrow> complex list \<Rightarrow> int list \<Rightarrow> complex list \<Rightarrow> fault option \<times> complex list" where
  "XLALInspiralIIRSetResponse a1 b0 delay response =
     (if length a1 \<noteq> length b0 \<or> length a1 \<noteq> length delay
      then (Some XLAL_EBADLEN, response)
      else response_filters a1 b0 delay (map (\<lambda>_. 0) response))"


section \<open>The filter Fourier transform and the inner product\<close>

definition clogabs :: "complex \<Rightarrow> real" where
  "clogabs z =
     (let xabs = \<bar>Re z\<bar>; yabs = \<bar>Im z\<bar>;
          (mx, u) = (if xabs \<ge> yabs then (xabs, yabs / xabs) else (yabs, xabs / yabs))
      in ln mx + 0.5 * ln (1 + u * u))"

text \<open>\<^verbatim>\<open>XLALInspiralGenerateIIRSetFourierTransform\<close>; the result is the pair
  \<^verbatim>\<open>(*hfcos, *hfsin)\<close>.\<close>

definition XLALInspiralGenerateIIRSetFourierTransform ::
  "int \<Rightarrow> int \<Rightarrow> complex \<Rightarrow> complex \<Rightarrow> int \<Rightarrow> complex \<times> complex" where
  "XLALInspiralGenerateIIRSetFourierTransform j jmax a b d =
     (let loga1 = clogabs a;
          arga1 = Arg a;
          pf = 2 * pi * of_int j / of_int jmax;
          scl = cpolar 0.5 (- pf * of_int (jmax - d));
          ft = b / Complex (- loga1) (- arga1 - pf);
          ftconj = cnj b / Complex (- loga1) (arga1 - pf)
      in (scl * (ft + ftconj), scl * (ft - ftconj)))"

text \<open>Lines 221 to 226: the sum of the cosine-quadrature transforms of all filters at
  the bin \<open>j\<close>.\<close>

definition filter_bank_hA ::
  "complex list \<Rightarrow> complex list \<Rightarrow> int list \<Rightarrow> nat \<Rightarrow> nat \<Rightarrow> complex" where
  "filter_bank_hA a1 b0 delay psd_length j =
     fold (\<lambda>k hA. hA + fst (XLALInspiralGenerateIIRSetFourierTransform (int j)
                               (2 * int psd_length) (a1 ! k) (b0 ! k) (delay ! k)))
          [0..<length a1] 0"

text \<open>\<^verbatim>\<open>XLALInspiralCalculateIIRSetInnerProduct\<close>; the result is \<^verbatim>\<open>*ip\<close>. The routine
  reads \<^verbatim>\<open>b0\<close> and \<^verbatim>\<open>delay\<close> at every index of \<^verbatim>\<open>a1\<close> without comparing the lengths.\<close>

definition XLALInspiralCalculateIIRSetInnerProduct ::
  "complex list \<Rightarrow> complex list \<Rightarrow> int list \<Rightarrow> real list \<Rightarrow> fault + real" where
  "XLALInspiralCalculateIIRSetInnerProduct a1 b0 delay psd =
     (if psd \<noteq> [] \<and> (length b0 < length a1 \<or> length delay < length a1)
      then Inl Undefined
      else Inr (fold (\<lambda>j ip. ip + cmod (filter_bank_hA a1 b0 delay (length psd) j)
                                   * cmod (filter_bank_hA a1 b0 delay (length psd) j)
                                   / (psd ! j * real (length psd)) * 1.0)
                     [0..<length psd] 0))"


section \<open>The lookup tables of the demodulation loop\<close>

text \<open>Lines 104 to 118, with \<^verbatim>\<open>LUT_RES = 64\<close>: the static tables are filled on the first
  call and never change; entry \<open>k\<close> of each is given for \<open>k = 0, \<dots>, 80\<close>. The cosine tables
  are the sine tables read 16 entries further on.\<close>

definition LUT_RES :: nat where
  "LUT_RES = 64"

definition sinVal :: "nat \<Rightarrow> real" where
  "sinVal k = sin ((2 * pi * real k) / real LUT_RES)"

definition sinVal2PI :: "nat \<Rightarrow> real" where
  "sinVal2PI k = sinVal k * (2 * pi)"

definition sinVal2PIPI :: "nat \<Rightarrow> real" where
  "sinVal2PIPI k = sinVal2PI k * pi"

definition cosVal :: "nat \<Rightarrow> real" where
  "cosVal k = sinVal (k + LUT_RES div 4)"

definition cosVal2PI :: "nat \<Rightarrow> real" where
  "cosVal2PI k = sinVal2PI (k + LUT_RES div 4)"

definition cosVal2PIPI :: "nat \<Rightarrow> real" where
  "cosVal2PIPI k = sinVal2PIPI (k + LUT_RES div 4)"

definition divLUTtab :: "nat \<Rightarrow> real" where
  "divLUTtab k = real k / real LUT_RES"

text \<open>Lines 198 to 203 and 223 to 226: the index of the closest table entry
  (\<^verbatim>\<open>UINT4 idx = x * LUT_RES + .5\<close>, for \<open>0 \<le> x\<close>) and the three-term Taylor series
  around it.\<close>

definition lut_idx :: "real \<Rightarrow> nat" where
  "lut_idx x = nat \<lfloor>x * real LUT_RES + 0.5\<rfloor>"

definition lut_sin :: "real \<Rightarrow> real" where
  "lut_sin x =
     (let idx = lut_idx x; d = x - divLUTtab idx; d2 = d * d
      in sinVal idx + d * cosVal2PI idx - d2 * sinVal2PIPI idx)"

definition lut_cos :: "real \<Rightarrow> real" where
  "lut_cos x =
     (let idx = lut_idx x; d = x - divLUTtab idx; d2 = d * d
      in cosVal idx - d * sinVal2PI idx - d2 * cosVal2PIPI idx)"


section \<open>The demodulation loop\<close>

text \<open>Memory reached through a bare pointer (\<^verbatim>\<open>REAL8 *\<close>, \<^verbatim>\<open>COMPLEX8 *\<close>) is a function
  from the index to the value stored there. The routine has no way to see where such a
  block ends; the indices at which it reads the spectrum of a segment are recorded in a
  trace, so that they can be compared with \<^verbatim>\<open>maxSFTindex\<close>.\<close>

type_synonym 'a ptr = "int \<Rightarrow> 'a"

record AMCoeffs =
  amcoe_a :: "real ptr"
  amcoe_b :: "real ptr"
  amcoe_A :: real
  amcoe_B :: real
  amcoe_C :: real
  amcoe_D :: real

record DemodPar =
  spinDwnOrder :: int
  spinDwn :: "real ptr"
  skyConst :: "real ptr"
  SFTno :: int
  f0 :: real
  df :: real
  Dterms :: int
  ifmin :: int
  imax :: int
  returnFaFb :: bool
  amcoe :: AMCoeffs

text \<open>\<^verbatim>\<open>LALFstat\<close>: the three output arrays; \<open>None\<close> is a \<^verbatim>\<open>NULL\<close> pointer. The three
  arrays are distinct blocks of memory.\<close>

record LALFstat =
  Fs_F :: "real ptr option"
  Fs_Fa :: "complex ptr option"
  Fs_Fb :: "complex ptr option"

definition LD_SMALL :: real where
  "LD_SMALL = (1 / 10 ^ 9) / (2 * pi)"

definition OOTWOPI :: real where
  "OOTWOPI = 1 / (2 * pi)"

text \<open>Lines 124 to 132: the phase-model sums of the segment \<open>alpha\<close>.\<close>

definition tempInt1 :: "DemodPar \<Rightarrow> int \<Rightarrow> int" where
  "tempInt1 params alpha = 2 * alpha * (spinDwnOrder params + 1) + 1"

definition xSum :: "DemodPar \<Rightarrow> int \<Rightarrow> real" where
  "xSum params alpha =
     fold (\<lambda>s acc. acc + spinDwn params s * skyConst params (tempInt1 params alpha + 2 + 2 * s))
          [0 .. spinDwnOrder params - 1] 0"

definition ySum :: "DemodPar \<Rightarrow> int \<Rightarrow> real" where
  "ySum params alpha =
     fold (\<lambda>s acc. acc + spinDwn params s * skyConst params (tempInt1 params alpha + 1 + 2 * s))
          [0 .. spinDwnOrder params - 1] 0"

text \<open>The variables of the two loops over the terms of the Dirichlet kernel. In the
  first loop \<open>kern_index\<close> is \<^verbatim>\<open>sftIndex\<close>; in the second it is the offset of the pointer
  \<^verbatim>\<open>Xalpha_k\<close> from \<^verbatim>\<open>Xalpha\<close>, and \<^verbatim>\<open>sftIndex\<close> itself is not changed.\<close>

record kernel =
  kern_index :: int
  kern_tempFreq1 :: real
  kern_x :: real
  kern_realXP :: real
  kern_imagXP :: real
  kern_reads :: "int list"

text \<open>Lines 258 to 278, one pass of the loop taken when \<^verbatim>\<open>tempFreq0 < LD_SMALL\<close>.
  \<^verbatim>\<open>SMALL\<close> is a positive constant of \<^verbatim>\<open>ComputeFStatistic.h\<close>, a parameter here; it
  keeps the divisor \<open>x\<close> away from 0.\<close>

definition small_offset_step :: "complex ptr \<Rightarrow> real \<Rightarrow> real \<Rightarrow> real \<Rightarrow> kernel \<Rightarrow> kernel" where
  "small_offset_step Xalpha SMALL tsin tcos s =
     (let Xalpha_k = Xalpha (kern_index s);
          (realXP, imagXP) =
            (if \<bar>kern_x s\<bar> < SMALL
             then (kern_realXP s + Re Xalpha_k, kern_imagXP s + Im Xalpha_k)
             else (let realP = tsin / kern_x s; imagP = tcos / kern_x s
                   in (kern_realXP s + Re Xalpha_k * realP - Im Xalpha_k * imagP,
                       kern_imagXP s + Re Xalpha_k * imagP + Im Xalpha_k * realP)));
          tempFreq1 = kern_tempFreq1 s - 1
      in \<lparr>kern_index = kern_index s + 1, kern_tempFreq1 = tempFreq1,
          kern_x = 2 * pi * tempFreq1, kern_realXP = realXP, kern_imagXP = imagXP,
          kern_reads = kern_reads s @ [kern_index s]\<rparr>)"

text \<open>Lines 311 to 320, one pass of the generic loop.\<close>

definition generic_step :: "complex ptr \<Rightarrow> real \<Rightarrow> real \<Rightarrow> kernel \<Rightarrow> kernel" where
  "generic_step Xalpha tsin tcos s =
     (let xinv = OOTWOPI / kern_tempFreq1 s;
          Xa = Xalpha (kern_index s);
          realP = tsin * xinv;
          imagP = tcos * xinv
      in \<lparr>kern_index = kern_index s + 1, kern_tempFreq1 = kern_tempFreq1 s - 1,
          kern_x = kern_x s,
          kern_realXP = kern_realXP s + (Re Xa * realP - Im Xa * imagP),
          kern_imagXP = kern_imagXP s + (Re Xa * imagP + Im Xa * realP),
          kern_reads = kern_reads s @ [kern_index s]\<rparr>)"

text \<open>\<^verbatim>\<open>UINT4 klim = 2*params->Dterms\<close>.\<close>

definition klim :: "DemodPar \<Rightarrow> nat" where
  "klim params = nat ((2 * Dterms params) mod 2 ^ 32)"

text \<open>Lines 148 to 343, the body of the loop over the segments for the frequency \<open>f\<close> and
  the segment \<open>alpha\<close>. The result is the outcome together with the indices at which the
  spectrum \<^verbatim>\<open>Xalpha\<close> was read; a normal outcome carries the product \<open>Q \<cdot> XP\<close> that line
  337 and 338 compute. Every real number is finite, so the test of line 166 never fires.
  The comparison of line 327 is between \<^verbatim>\<open>INT4\<close> and \<^verbatim>\<open>UINT4\<close> and is made after
  conversion of \<^verbatim>\<open>sftIndex-1\<close> to \<^verbatim>\<open>UINT4\<close>.\<close>

definition demod_segment ::
  "nat \<Rightarrow> real \<Rightarrow> complex ptr ptr \<Rightarrow> DemodPar \<Rightarrow> real \<Rightarrow> int \<Rightarrow> (fault + complex) \<times> int list" where
  "demod_segment maxSFTindex SMALL input params f alpha =
     (let Xalpha = input alpha;
          xTemp = f * skyConst params (tempInt1 params alpha) + xSum params alpha
      in if xTemp < 0 then (Inl COMPUTEFSTAT_EXIT_DEMOD, [])
      else case uint_of_double xTemp of
        None \<Rightarrow> (Inl Undefined, [])
      | Some xTInt \<Rightarrow>
     (let tempFreq0 = xTemp - of_int xTInt;
          tsin = lut_sin tempFreq0;
          tcos = lut_cos tempFreq0 - 1;
          yTemp = f * skyConst params (tempInt1 params alpha - 1) + ySum params alpha
      in case int_of_double yTemp of
        None \<Rightarrow> (Inl Undefined, [])
      | Some yInt \<Rightarrow>
     (let yRem0 = yTemp - of_int yInt;
          yRem = (if yRem0 < 0 then yRem0 + 1 else yRem0);
          imagQ = - lut_sin yRem;
          realQ = lut_cos yRem
      in case int_of_double (of_int xTInt - of_int (Dterms params) + 1 - of_int (ifmin params)) of
        None \<Rightarrow> (Inl Undefined, [])
      | Some sftIndex \<Rightarrow>
     if sftIndex < 0 then (Inl COMPUTEFSTAT_EINPUT, [])
     else
     (let tempFreq1 = tempFreq0 + of_int (Dterms params) - 1;
          s0 = \<lparr>kern_index = sftIndex, kern_tempFreq1 = tempFreq1,
                kern_x = 2 * pi * tempFreq1, kern_realXP = 0, kern_imagXP = 0,
                kern_reads = []\<rparr>;
          (s, sftIndex') =
            (if tempFreq0 < LD_SMALL
             then (let s = (small_offset_step Xalpha SMALL tsin tcos ^^ klim params) s0
                   in (s, kern_index s))
             else ((generic_step Xalpha tsin tcos ^^ klim params) s0, sftIndex))
      in if (sftIndex' - 1) mod 2 ^ 32 > int maxSFTindex
         then (Inl COMPUTEFSTAT_EINPUT, kern_reads s)
         else (let realQXP = kern_realXP s * realQ - kern_imagXP s * imagQ;
                   imagQXP = kern_realXP s * imagQ + kern_imagXP s * realQ
               in (Inr (Complex realQXP imagQXP), kern_reads s))))))"

text \<open>Lines 146 to 344: the loop over the segments \<open>alpha\<close>, which adds to \<^verbatim>\<open>Fa\<close> and
  \<^verbatim>\<open>Fb\<close> and stops at the first segment that fails.\<close>

fun segments_loop ::
  "nat \<Rightarrow> real \<Rightarrow> complex ptr ptr \<Rightarrow> DemodPar \<Rightarrow> real \<Rightarrow> int list \<Rightarrow> complex \<times> complex
     \<Rightarrow> fault + complex \<times> complex" where
  "segments_loop maxSFTindex SMALL input params f [] (Fa, Fb) = Inr (Fa, Fb)"
| "segments_loop maxSFTindex SMALL input params f (alpha # alphas) (Fa, Fb) =
     (case fst (demod_segment maxSFTindex SMALL input params f alpha) of
        Inl e \<Rightarrow> Inl e
      | Inr QXP \<Rightarrow>
          (let a = amcoe_a (amcoe params) alpha; b = amcoe_b (amcoe params) alpha
           in segments_loop maxSFTindex SMALL input params f alphas
                (Complex (Re Fa + a * Re QXP) (Im Fa + a * Im QXP),
                 Complex (Re Fb + b * Re QXP) (Im Fb + b * Im QXP))))"

text \<open>Lines 346 to 355: the statistic of one frequency bin and the stores into the
  output arrays. \<^verbatim>\<open>M\<close> is \<^verbatim>\<open>params->SFTno\<close> converted to \<^verbatim>\<open>UINT4\<close>.\<close>

definition store_bin ::
  "DemodPar \<Rightarrow> int \<Rightarrow> complex \<times> complex
     \<Rightarrow> real ptr \<times> complex ptr option \<times> complex ptr option
     \<Rightarrow> real ptr \<times> complex ptr option \<times> complex ptr option" where
  "store_bin params i FaFb out =
     (case (FaFb, out) of ((Fa, Fb), (F, Fa_out, Fb_out)) \<Rightarrow>
     (let M = real_of_int (SFTno params mod 2 ^ 32);
          FaSq = Re Fa * Re Fa + Im Fa * Im Fa;
          FbSq = Re Fb * Re Fb + Im Fb * Im Fb;
          FaFb = Re Fa * Re Fb + Im Fa * Im Fb;
          F' = F(i := (4 / (M * amcoe_D (amcoe params)))
                        * (amcoe_B (amcoe params) * FaSq + amcoe_A (amcoe params) * FbSq
                            - 2 * amcoe_C (amcoe params) * FaFb))
      in if returnFaFb params
         then (F', map_option (\<lambda>p. p(i := Fa)) Fa_out, map_option (\<lambda>p. p(i := Fb)) Fb_out)
         else (F', Fa_out, Fb_out)))"

text \<open>Lines 136 to 358: the loop over the frequency bins. On an abort the arrays keep
  what the earlier bins stored.\<close>

fun bins_loop ::
  "nat \<Rightarrow> real \<Rightarrow> complex ptr ptr \<Rightarrow> DemodPar \<Rightarrow> int list
     \<Rightarrow> real ptr \<times> complex ptr option \<times> complex ptr option
     \<Rightarrow> fault option \<times> real ptr \<times> complex ptr option \<times> complex ptr option" where
  "bins_loop maxSFTindex SMALL input params [] out = (None, out)"
| "bins_loop maxSFTindex SMALL input params (i # bins) out =
     (let f = f0 params + of_int i * df params
      in case segments_loop maxSFTindex SMALL input params f [0 .. SFTno params - 1] (0, 0) of
           Inl e \<Rightarrow> (Some e, out)
         | Inr FaFb \<Rightarrow>
             bins_loop maxSFTindex SMALL input params bins (store_bin params i FaFb out))"

text \<open>\<^verbatim>\<open>TestLALDemod\<close>. The globals \<^verbatim>\<open>maxSFTindex\<close> and the constant \<^verbatim>\<open>SMALL\<close> are
  arguments. The result is the status (\<open>None\<close> for a normal return) and \<^verbatim>\<open>*Fs\<close> as the
  routine leaves it. Allocation of the three work arrays is taken to succeed.\<close>

definition TestLALDemod ::
  "nat \<Rightarrow> real \<Rightarrow> LALFstat option \<Rightarrow> complex ptr ptr \<Rightarrow> DemodPar
     \<Rightarrow> fault option \<times> LALFstat option" where
  "TestLALDemod maxSFTindex SMALL Fs input params =
     (case Fs of
        None \<Rightarrow> (Some COMPUTEFSTAT_ENULL, Fs)
      | Some fs \<Rightarrow>
     (case Fs_F fs of
        None \<Rightarrow> (Some COMPUTEFSTAT_ENULL, Fs)
      | Some F \<Rightarrow>
     if returnFaFb params \<and> (Fs_Fa fs = None \<or> Fs_Fb fs = None)
     then (Some COMPUTEFSTAT_ENULL, Fs)
     else
     (case bins_loop maxSFTindex SMALL input params [0 .. imax params - 1]
             (F, Fs_Fa fs, Fs_Fb fs) of
        (status, F', Fa', Fb') \<Rightarrow>
          (status, Some \<lparr>Fs_F = Some F', Fs_Fa = Fa', Fs_Fb = Fb'\<rparr>))))"


text \<open>The statistic of one frequency bin as the specification writes it,
  \<open>(4/(M\<cdot>D))\<cdot>(B\<cdot>|Fa|\<^sup>2 + A\<cdot>|Fb|\<^sup>2 - 2C\<cdot>Re(Fa\<cdot>conj(Fb)))\<close>, for comparison with what
  \<open>store_bin\<close> computes from the real and imaginary parts.\<close>

abbreviation F_statistic :: "DemodPar \<Rightarrow> complex \<Rightarrow> complex \<Rightarrow> real" where
  "F_statistic params Fa Fb \<equiv>
     (4 / (real_of_int (SFTno params mod 2 ^ 32) * amcoe_D (amcoe params)))
       * (amcoe_B (amcoe params) * (cmod Fa)\<^sup>2 + amcoe_A (amcoe params) * (cmod Fb)\<^sup>2
            - 2 * amcoe_C (amcoe params) * Re (Fa * cnj Fb))"


section \<open>A worked demodulation\<close>

text \<open>One frequency bin at \<open>f = 21/2\<close> and one segment, no spin-down terms, \<open>Dterms = 2\<close>
  and \<open>ifmin = 0\<close>; the sky constants make \<open>xTemp = f\<close> and \<open>yTemp = 0\<close>.\<close>

definition example_params :: DemodPar where
  "example_params =
     \<lparr>spinDwnOrder = 0, spinDwn = (\<lambda>s. 0), skyConst = (\<lambda>k. if k = 1 then 1 else 0),
      SFTno = 1, f0 = 21 / 2, df = 1, Dterms = 2, ifmin = 0, imax = 1, returnFaFb = True,
      amcoe = \<lparr>amcoe_a = (\<lambda>alpha. 1), amcoe_b = (\<lambda>alpha. 2),
                amcoe_A = 1, amcoe_B = 1, amcoe_C = 0, amcoe_D = 1\<rparr>\<rparr>"

definition example_Fs :: LALFstat where
  "example_Fs = \<lparr>Fs_F = Some (\<lambda>i. 0), Fs_Fa = Some (\<lambda>i. 0), Fs_Fb = Some (\<lambda>i. 0)\<rparr>"

definition example_input :: "complex ptr ptr" where
  "example_input = (\<lambda>alpha k. Complex (of_int k) 1)"


section \<open>A worked envelope\<close>

text \<open>Seven samples with a cubic phase, \<open>phase[k] = \<pi> \<cdot> k\<^sup>3\<close>, used to run the synthesizer
  on a concrete input.\<close>

abbreviation example_amp :: "real list" where
  "example_amp \<equiv> [1, 2, 3, 4, 5, 6, 7]"

abbreviation example_phase :: "real list" where
  "example_phase \<equiv> [0, pi, 8 * pi, 27 * pi, 64 * pi, 125 * pi, 216 * pi]"


section \<open>Properties of the synthesizer\<close>

subsection \<open>The loop body and the loop\<close>

lemma iir_body_delay:
  "iir_body amp phase epsilon alpha beta j = Inr (jstep, k, a, b, d) \<Longrightarrow>
     d = int (length amp) - 1 - j"
  by (auto simp: iir_body_def split: option.splits if_splits)

lemma iir_body_a1:
  "iir_body amp phase epsilon alpha beta j = Inr (jstep, k, a, b, d) \<Longrightarrow>
     cmod a = exp (- beta / of_int jstep)"
  by (auto simp: iir_body_def cpolar_def split: option.splits if_splits)

lemma iir_loop_delays:
  "iir_loop amp phase epsilon alpha beta j acc = Inr out \<Longrightarrow>
   j \<le> int (length amp) - 1 \<Longrightarrow>
   sorted_wrt (<) (set_delay acc) \<Longrightarrow>
   (\<forall>d \<in> set (set_delay acc). 0 \<le> d \<and> d < int (length amp) - 1 - j
        \<and> d \<le> int (length amp) - 5) \<Longrightarrow>
   sorted_wrt (<) (set_delay out) \<and>
   (\<forall>d \<in> set (set_delay out). 0 \<le> d \<and> d \<le> int (length amp) - 5)"
proof (induction amp phase epsilon alpha beta j acc rule: iir_loop.induct)
  case (1 amp phase epsilon alpha beta j acc)
  show ?case
  proof (cases "j > 3")
    case False
    with "1.prems" show ?thesis
      by (auto simp: iir_loop.simps [of amp phase epsilon alpha beta j acc])
  next
    case True
    from True "1.prems"(1) obtain jstep k a b d where
      body: "iir_body amp phase epsilon alpha beta j = Inr (jstep, k, a, b, d)"
      by (auto simp: iir_loop.simps [of amp phase epsilon alpha beta j acc]
               split: sum.splits)
    define acc' where "acc' = \<lparr>set_a1 = set_a1 acc @ [a], set_b0 = set_b0 acc @ [b],
                          set_delay = set_delay acc @ [d]\<rparr>"
    have d: "d = int (length amp) - 1 - j" using body by (rule iir_body_delay)
    have js: "2 \<le> jstep" using body True by (rule iir_body_jstep)
    have sorted': "sorted_wrt (<) (set_delay acc')"
      using "1.prems"(3,4) d by (auto simp: acc'_def sorted_wrt_append)
    have bound': "\<forall>x \<in> set (set_delay acc'). 0 \<le> x \<and> x \<le> int (length amp) - 5"
      using "1.prems"(2,4) d True by (auto simp: acc'_def)
    show ?thesis
    proof (cases "k < 2")
      case True
      with \<open>j > 3\<close> body "1.prems"(1) have "out = acc'"
        by (simp add: iir_loop.simps [of amp phase epsilon alpha beta j acc] acc'_def)
      with sorted' bound' show ?thesis by simp
    next
      case False
      with \<open>j > 3\<close> body "1.prems"(1)
      have rec: "iir_loop amp phase epsilon alpha beta (j - jstep) acc' = Inr out"
        by (simp add: iir_loop.simps [of amp phase epsilon alpha beta j acc] acc'_def)
      have "\<forall>x \<in> set (set_delay acc'). 0 \<le> x \<and> x < int (length amp) - 1 - (j - jstep)
               \<and> x \<le> int (length amp) - 5"
        using "1.prems"(2,4) d js \<open>j > 3\<close> by (auto simp: acc'_def)
      moreover have "j - jstep \<le> int (length amp) - 1" using "1.prems"(2) js by simp
      ultimately show ?thesis
        using "1.IH" [OF \<open>j > 3\<close> body refl refl refl refl acc'_def False rec] sorted'
        by blast
    qed
  qed
qed


lemma iir_loop_a1:
  "iir_loop amp phase epsilon alpha beta j acc = Inr out \<Longrightarrow>
   (\<forall>a \<in> set (set_a1 acc). \<exists>jstep \<ge> 2. cmod a = exp (- beta / of_int jstep)) \<Longrightarrow>
   (\<forall>a \<in> set (set_a1 out). \<exists>jstep \<ge> 2. cmod a = exp (- beta / of_int jstep))"
proof (induction amp phase epsilon alpha beta j acc rule: iir_loop.induct)
  case (1 amp phase epsilon alpha beta j acc)
  show ?case
  proof (cases "j > 3")
    case False
    with "1.prems" show ?thesis
      by (simp add: iir_loop.simps [of amp phase epsilon alpha beta j acc])
  next
    case True
    from True "1.prems"(1) obtain jstep k a b d where
      body: "iir_body amp phase epsilon alpha beta j = Inr (jstep, k, a, b, d)"
      by (auto simp: iir_loop.simps [of amp phase epsilon alpha beta j acc]
               split: sum.splits)
    define acc' where "acc' = \<lparr>set_a1 = set_a1 acc @ [a], set_b0 = set_b0 acc @ [b],
                          set_delay = set_delay acc @ [d]\<rparr>"
    have "2 \<le> jstep" using body True by (rule iir_body_jstep)
    moreover have "cmod a = exp (- beta / of_int jstep)" using body by (rule iir_body_a1)
    ultimately have inv': "\<forall>a \<in> set (set_a1 acc'). \<exists>jstep \<ge> 2. cmod a = exp (- beta / of_int jstep)"
      using "1.prems"(2) by (auto simp: acc'_def)
    show ?thesis
    proof (cases "k < 2")
      case True
      with \<open>j > 3\<close> body "1.prems"(1) have "out = acc'"
        by (simp add: iir_loop.simps [of amp phase epsilon alpha beta j acc] acc'_def)
      with inv' show ?thesis by simp
    next
      case False
      with \<open>j > 3\<close> body "1.prems"(1)
      have rec: "iir_loop amp phase epsilon alpha beta (j - jstep) acc' = Inr out"
        by (simp add: iir_loop.simps [of amp phase epsilon alpha beta j acc] acc'_def)
      show ?thesis
        using "1.IH" [OF \<open>j > 3\<close> body refl refl refl refl acc'_def False rec inv'] .
    qed
  qed
qed

lemma iir_loop_prefix:
  "iir_loop amp phase epsilon alpha beta j acc = Inr out \<Longrightarrow>
   \<exists>rest. set_delay out = set_delay acc @ rest"
proof (induction amp phase epsilon alpha beta j acc rule: iir_loop.induct)
  case (1 amp phase epsilon alpha beta j acc)
  show ?case
  proof (cases "j > 3")
    case False
    with "1.prems" show ?thesis
      by (simp add: iir_loop.simps [of amp phase epsilon alpha beta j acc])
  next
    case True
    from True "1.prems"(1) obtain jstep k a b d where
      body: "iir_body amp phase epsilon alpha beta j = Inr (jstep, k, a, b, d)"
      by (auto simp: iir_loop.simps [of amp phase epsilon alpha beta j acc]
               split: sum.splits)
    define acc' where "acc' = \<lparr>set_a1 = set_a1 acc @ [a], set_b0 = set_b0 acc @ [b],
                          set_delay = set_delay acc @ [d]\<rparr>"
    show ?thesis
    proof (cases "k < 2")
      case True
      with \<open>j > 3\<close> body "1.prems"(1) have "out = acc'"
        by (simp add: iir_loop.simps [of amp phase epsilon alpha beta j acc] acc'_def)
      then show ?thesis by (simp add: acc'_def)
    next
      case False
      with \<open>j > 3\<close> body "1.prems"(1)
      have rec: "iir_loop amp phase epsilon alpha beta (j - jstep) acc' = Inr out"
        by (simp add: iir_loop.simps [of amp phase epsilon alpha beta j acc] acc'_def)
      from "1.IH" [OF \<open>j > 3\<close> body refl refl refl refl acc'_def False rec]
      show ?thesis by (auto simp: acc'_def)
    qed
  qed
qed

lemma iir_loop_first_delay:
  assumes "iir_loop amp phase epsilon alpha beta j
             \<lparr>set_a1 = [], set_b0 = [], set_delay = []\<rparr> = Inr out" and "3 < j"
  shows "\<exists>rest. set_delay out = (int (length amp) - 1 - j) # rest"
proof -
  let ?acc = "\<lparr>set_a1 = [], set_b0 = [], set_delay = []\<rparr>"
  from assms obtain jstep k a b d where
    body: "iir_body amp phase epsilon alpha beta j = Inr (jstep, k, a, b, d)"
    by (auto simp: iir_loop.simps [of amp phase epsilon alpha beta j ?acc] split: sum.splits)
  have d: "d = int (length amp) - 1 - j" using body by (rule iir_body_delay)
  show ?thesis
  proof (cases "k < 2")
    case True
    with assms body d show ?thesis
      by (auto simp: iir_loop.simps [of amp phase epsilon alpha beta j ?acc])
  next
    case False
    with assms body
    have "iir_loop amp phase epsilon alpha beta (j - jstep)
            \<lparr>set_a1 = [a], set_b0 = [b], set_delay = [d]\<rparr> = Inr out"
      by (simp add: iir_loop.simps [of amp phase epsilon alpha beta j ?acc])
    from iir_loop_prefix [OF this] d show ?thesis by simp
  qed
qed


lemma iir_loop_walk:
  "iir_loop amp phase epsilon alpha beta j acc = Inr out \<Longrightarrow>
   \<exists>records. iir_walk amp phase epsilon alpha beta j records \<and>
     set_a1 out = set_a1 acc @ map fst records \<and>
     set_b0 out = set_b0 acc @ map (fst \<circ> snd) records \<and>
     set_delay out = set_delay acc @ map (snd \<circ> snd) records"
proof (induction amp phase epsilon alpha beta j acc rule: iir_loop.induct)
  case (1 amp phase epsilon alpha beta j acc)
  show ?case
  proof (cases "j > 3")
    case False
    with "1.prems" have "out = acc"
      by (simp add: iir_loop.simps [of amp phase epsilon alpha beta j acc])
    with False show ?thesis
      by (intro exI [of _ "[]"]) (simp add: walk_done)
  next
    case True
    from True "1.prems"(1) obtain jstep k a b d where
      body: "iir_body amp phase epsilon alpha beta j = Inr (jstep, k, a, b, d)"
      by (auto simp: iir_loop.simps [of amp phase epsilon alpha beta j acc]
               split: sum.splits)
    define acc' where "acc' = \<lparr>set_a1 = set_a1 acc @ [a], set_b0 = set_b0 acc @ [b],
                          set_delay = set_delay acc @ [d]\<rparr>"
    show ?thesis
    proof (cases "k < 2")
      case True
      with \<open>j > 3\<close> body "1.prems"(1) have "out = acc'"
        by (simp add: iir_loop.simps [of amp phase epsilon alpha beta j acc] acc'_def)
      with walk_break [OF \<open>j > 3\<close> body True] show ?thesis
        by (intro exI [of _ "[(a, b, d)]"]) (simp add: acc'_def)
    next
      case False
      with \<open>j > 3\<close> body "1.prems"(1)
      have rec: "iir_loop amp phase epsilon alpha beta (j - jstep) acc' = Inr out"
        by (simp add: iir_loop.simps [of amp phase epsilon alpha beta j acc] acc'_def)
      from "1.IH" [OF \<open>j > 3\<close> body refl refl refl refl acc'_def False rec]
      obtain records where w: "iir_walk amp phase epsilon alpha beta (j - jstep) records"
        and o: "set_a1 out = set_a1 acc' @ map fst records"
               "set_b0 out = set_b0 acc' @ map (fst \<circ> snd) records"
               "set_delay out = set_delay acc' @ map (snd \<circ> snd) records"
        by blast
      from walk_step [OF \<open>j > 3\<close> body False w] o show ?thesis
        by (intro exI [of _ "(a, b, d) # records"]) (simp add: acc'_def)
    qed
  qed
qed

subsection \<open>The run on the worked envelope\<close>

lemma floor_sqrt_half_0: "0 \<le> x \<Longrightarrow> x < 1 / 4 \<Longrightarrow> \<lfloor>sqrt x + 1 / 2\<rfloor> = 0"
proof -
  assume x: "0 \<le> x" "x < 1 / 4"
  have "sqrt x < sqrt (1 / 4)" using x by (simp only: real_sqrt_less_iff)
  also have "sqrt (1 / 4) = 1 / 2" by (simp add: real_sqrt_divide)
  finally have "sqrt x < 1 / 2" .
  moreover have "0 \<le> sqrt x" using x by simp
  ultimately show ?thesis by (simp add: floor_eq_iff)
qed

lemma floor_cbrt_half_0:
  fixes x :: real
  shows "0 \<le> x \<Longrightarrow> x < 1 / 8 \<Longrightarrow> \<lfloor>x powr (1 / 3) + 1 / 2\<rfloor> = 0"
proof -
  assume x: "0 \<le> x" "x < 1 / 8"
  have "x powr (1 / 3) < (1 / 8) powr (1 / 3)"
    using x by (intro powr_less_mono2) simp_all
  also have "(1 / 8 :: real) = (1 / 2) powr 3" by (simp add: power3_eq_cube)
  also have "((1 / 2 :: real) powr 3) powr (1 / 3) = 1 / 2"
    by (simp only: powr_powr) simp
  finally have "x powr (1 / 3) < 1 / 2" .
  moreover have "0 \<le> x powr (1 / 3)" by simp
  ultimately show ?thesis by (simp add: floor_eq_iff)
qed

lemma choose_jstep_small:
  assumes "0 < pd" "0 < pt" "0 \<le> epsilon" "2 * epsilon / pd < 1 / 4" "6 * epsilon / pt < 1 / 8"
  shows "choose_jstep epsilon pd pt = Some 2"
  using assms
  by (simp add: choose_jstep_def jstep_second_def jstep_third_def fdiv_def
        floor_sqrt_half_0 floor_cbrt_half_0 int_of_double_def trunc_def)


lemma example_terms_6: "derivative_terms example_phase 6 = Some (15, 3)"
  by (simp add: derivative_terms_def in_vec_def vec_at_def field_simps)

lemma example_terms_4: "derivative_terms example_phase 4 = Some (12, 3)"
  by (simp add: derivative_terms_def in_vec_def vec_at_def field_simps)

lemma example_body_6: "iir_body example_amp example_phase (1 / 100) (1 / 2) (1 / 5) 6
   = Inr (2, 5, cpolar (exp (- (1 / 10))) (- (75 * pi)), cpolar 6 (200 * pi), 0)"
  by (simp add: iir_body_def example_terms_6 choose_jstep_small anchor_def int_of_double_def trunc_def
        phase_dot_at_def in_vec_def vec_at_def)

lemma example_body_4: "iir_body example_amp example_phase (1 / 100) (1 / 2) (1 / 5) 4
   = Inr (2, 3, cpolar (exp (- (1 / 10))) (- (27 * pi)), cpolar 4 (54 * pi), 2)"
  by (simp add: iir_body_def example_terms_4 choose_jstep_small anchor_def int_of_double_def trunc_def
        phase_dot_at_def in_vec_def vec_at_def)

lemma example_run: "XLALInspiralGenerateIIRSet example_amp example_phase (1 / 100) (1 / 2) (1 / 5) 0 0
   = Inr \<lparr>set_a1 = [cpolar (exp (- (1 / 10))) (- (75 * pi)), cpolar (exp (- (1 / 10))) (- (27 * pi))],
          set_b0 = [cpolar 6 (200 * pi), cpolar 4 (54 * pi)],
          set_delay = [0, 2]\<rparr>"
  by (simp add: XLALInspiralGenerateIIRSet_def iir_loop.simps example_body_6 example_body_4)

subsection \<open>The claims about the synthesizer\<close>

text \<open>
  C1, as the code has it. The cursor \<open>j\<close> starts at \<open>N - 1\<close>, the last sample, not at
  \<open>N - 2\<close>. For every envelope on which the synthesizer returns a filter set, the three
  output vectors have one length and their records are those of the walk from \<open>N - 1\<close>:
  one record per pass, passes made while \<open>j > 3\<close>, the walk ended early by the first
  anchor \<open>k < 2\<close>. Consequently the first record, which exists as soon as \<open>N > 4\<close>, has the
  delay \<open>(N - 1) - j = 0\<close>.
\<close>

theorem C1_cursor_starts_at_last_sample:
  assumes "XLALInspiralGenerateIIRSet amp phase epsilon alpha beta padding iir_type_flag = Inr out"
  shows "length (set_a1 out) = length (set_delay out) \<and>
         length (set_b0 out) = length (set_delay out) \<and>
         iir_walk amp phase epsilon alpha beta (int (length amp) - 1)
           (zip (set_a1 out) (zip (set_b0 out) (set_delay out))) \<and>
         (4 < length amp \<longrightarrow> set_delay out \<noteq> [] \<and> hd (set_delay out) = 0)"
proof -
  from assms have run: "iir_loop amp phase epsilon alpha beta (int (length amp) - 1)
                     \<lparr>set_a1 = [], set_b0 = [], set_delay = []\<rparr> = Inr out"
    by (simp add: XLALInspiralGenerateIIRSet_def split: if_splits)
  from iir_loop_walk [OF run] obtain records where
    w: "iir_walk amp phase epsilon alpha beta (int (length amp) - 1) records"
    and o: "set_a1 out = map fst records" "set_b0 out = map (fst \<circ> snd) records"
           "set_delay out = map (snd \<circ> snd) records"
    by auto
  have "zip (set_a1 out) (zip (set_b0 out) (set_delay out)) = records"
    unfolding o by (induction records) auto
  moreover have "set_delay out \<noteq> [] \<and> hd (set_delay out) = 0" if "4 < length amp"
  proof -
    from that have "3 < int (length amp) - 1" by simp
    from iir_loop_first_delay [OF run this] show ?thesis by auto
  qed
  ultimately show ?thesis using w o by simp
qed

theorem C1_cursor_starts_at_last_sample_witness:
  "XLALInspiralGenerateIIRSet example_amp example_phase (1 / 100) (1 / 2) (1 / 5) 0 0
     = Inr \<lparr>set_a1 = [cpolar (exp (- (1 / 10))) (- (75 * pi)), cpolar (exp (- (1 / 10))) (- (27 * pi))],
            set_b0 = [cpolar 6 (200 * pi), cpolar 4 (54 * pi)],
            set_delay = [0, 2]\<rparr> \<and>
   iir_walk example_amp example_phase (1 / 100) (1 / 2) (1 / 5) 6
     [(cpolar (exp (- (1 / 10))) (- (75 * pi)), cpolar 6 (200 * pi), 0),
      (cpolar (exp (- (1 / 10))) (- (27 * pi)), cpolar 4 (54 * pi), 2)] \<and>
   4 < length example_amp \<and> hd [0, 2 :: int] = 0"
  using C1_cursor_starts_at_last_sample [OF example_run] example_run by simp

text \<open>
  The claim C1 as stated puts the start of the cursor at \<open>N - 2\<close> and the first delay at 1.
  On the worked envelope the synthesizer succeeds and the first delay is 0.
\<close>

theorem C1_first_delay_counterexample:
  "map_sum id (hd \<circ> set_delay)
     (XLALInspiralGenerateIIRSet example_amp example_phase (1 / 100) (1 / 2) (1 / 5) 0 0) = Inr 0
   \<and> map_sum id (hd \<circ> set_delay)
     (XLALInspiralGenerateIIRSet example_amp example_phase (1 / 100) (1 / 2) (1 / 5) 0 0) \<noteq> Inr 1"
  by (simp add: example_run)

text \<open>
  C6. For every envelope of length \<open>N\<close> on which the synthesizer returns a filter set, the
  delay sequence is non-decreasing in the order in which the filters were appended, and
  every delay lies in \<open>[0, N - 1]\<close>.
\<close>

theorem C6_delays_sorted_and_bounded:
  assumes "XLALInspiralGenerateIIRSet amp phase epsilon alpha beta padding iir_type_flag = Inr out"
  shows "sorted (set_delay out) \<and>
         (\<forall>d \<in> set (set_delay out). 0 \<le> d \<and> d \<le> int (length amp) - 1)"
proof -
  from assms have run: "iir_loop amp phase epsilon alpha beta (int (length amp) - 1)
                     \<lparr>set_a1 = [], set_b0 = [], set_delay = []\<rparr> = Inr out"
    by (simp add: XLALInspiralGenerateIIRSet_def split: if_splits)
  from iir_loop_delays [OF run]
  have "sorted_wrt (<) (set_delay out)"
    and b: "\<forall>d \<in> set (set_delay out). 0 \<le> d \<and> d \<le> int (length amp) - 5"
    by simp_all
  then have "sorted (set_delay out)"
    by (simp add: strict_sorted_imp_sorted)
  with b show ?thesis by fastforce
qed


theorem C6_delays_sorted_and_bounded_witness:
  "XLALInspiralGenerateIIRSet example_amp example_phase (1 / 100) (1 / 2) (1 / 5) 0 0
     = Inr \<lparr>set_a1 = [cpolar (exp (- (1 / 10))) (- (75 * pi)), cpolar (exp (- (1 / 10))) (- (27 * pi))],
            set_b0 = [cpolar 6 (200 * pi), cpolar 4 (54 * pi)],
            set_delay = [0, 2]\<rparr> \<and>
   sorted [0, 2 :: int] \<and> list_all (\<lambda>d. 0 \<le> d \<and> d \<le> int (length example_amp) - 1) [0, 2]"
  using C6_delays_sorted_and_bounded [OF example_run] example_run by simp

text \<open>
  C7. For every filter set that the synthesizer returns with \<open>beta > 0\<close>, every decay
  coefficient \<open>a1\<close> has magnitude \<open>exp (- beta / jstep)\<close> for a step \<open>jstep \<ge> 2\<close>, and hence
  magnitude below 1.
\<close>

theorem C7_decay_coefficients_stable:
  assumes "XLALInspiralGenerateIIRSet amp phase epsilon alpha beta padding iir_type_flag = Inr out"
    and "0 < beta"
  shows "\<forall>a \<in> set (set_a1 out).
           (\<exists>jstep \<ge> 2. cmod a = exp (- beta / of_int jstep)) \<and> cmod a < 1"
proof -
  from assms have run: "iir_loop amp phase epsilon alpha beta (int (length amp) - 1)
                     \<lparr>set_a1 = [], set_b0 = [], set_delay = []\<rparr> = Inr out"
    by (simp add: XLALInspiralGenerateIIRSet_def split: if_splits)
  have mag: "\<forall>a \<in> set (set_a1 out). \<exists>jstep \<ge> 2. cmod a = exp (- beta / of_int jstep)"
    using iir_loop_a1 [OF run] by simp
  show ?thesis
  proof
    fix a assume "a \<in> set (set_a1 out)"
    with mag obtain jstep :: int where js: "2 \<le> jstep" "cmod a = exp (- beta / of_int jstep)"
      by blast
    from js(1) \<open>0 < beta\<close> have "- beta / of_int jstep < 0" by (simp add: field_simps)
    then have "cmod a < 1" using js(2) by simp
    with js show "(\<exists>jstep \<ge> 2. cmod a = exp (- beta / of_int jstep)) \<and> cmod a < 1" by blast
  qed
qed


theorem C7_decay_coefficients_stable_witness:
  "XLALInspiralGenerateIIRSet example_amp example_phase (1 / 100) (1 / 2) (1 / 5) 0 0
     = Inr \<lparr>set_a1 = [cpolar (exp (- (1 / 10))) (- (75 * pi)), cpolar (exp (- (1 / 10))) (- (27 * pi))],
            set_b0 = [cpolar 6 (200 * pi), cpolar 4 (54 * pi)],
            set_delay = [0, 2]\<rparr> \<and>
   (0 :: real) < 1 / 5 \<and>
   list_all (\<lambda>a. cmod a < 1)
     [cpolar (exp (- (1 / 10))) (- (75 * pi)), cpolar (exp (- (1 / 10))) (- (27 * pi))]"
proof -
  have "(0 :: real) < 1 / 5" by simp
  from C7_decay_coefficients_stable [OF example_run this] example_run
  show ?thesis by simp
qed

text \<open>
  C9. For an envelope of length exactly 4 with matched amplitude and phase lengths, the
  cursor starts at 3, the loop body never runs, and the synthesizer returns success with
  the three output vectors empty.
\<close>

theorem C9_length_four_gives_no_filters:
  assumes "length amp = 4" and "length phase = 4"
  shows "XLALInspiralGenerateIIRSet amp phase epsilon alpha beta padding iir_type_flag
           = Inr \<lparr>set_a1 = [], set_b0 = [], set_delay = []\<rparr>"
  using assms by (simp add: XLALInspiralGenerateIIRSet_def iir_loop.simps)

theorem C9_length_four_witness:
  "length [1, 1, 1, 1 :: real] = 4 \<and> length [0, 1, 4, 9 :: real] = 4 \<and>
   XLALInspiralGenerateIIRSet [1, 1, 1, 1] [0, 1, 4, 9] (1 / 100) (1 / 2) (1 / 5) 0 0
     = Inr \<lparr>set_a1 = [], set_b0 = [], set_delay = []\<rparr>"
  using C9_length_four_gives_no_filters [of "[1, 1, 1, 1]" "[0, 1, 4, 9]" "1 / 100" "1 / 2" "1 / 5" 0 0]
  by simp



section \<open>Properties of the evaluator\<close>

text \<open>
  C10. The evaluator zeroes the whole response buffer before it accumulates: two runs on
  the same filter set with matched lengths and buffers of the same length end with the
  same status and the same buffer, whatever the buffers held before; and when the lengths
  of \<open>a1\<close>, \<open>b0\<close> and \<open>delay\<close> do not match, the routine fails with \<open>XLAL_EBADLEN\<close> and
  leaves the buffer as it was.
\<close>

theorem C10_response_independent_of_initial_contents:
  "(length a1 = length b0 \<and> length a1 = length delay \<and> length response1 = length response2 \<longrightarrow>
      XLALInspiralIIRSetResponse a1 b0 delay response1
        = XLALInspiralIIRSetResponse a1 b0 delay response2) \<and>
   (length a1 \<noteq> length b0 \<or> length a1 \<noteq> length delay \<longrightarrow>
      XLALInspiralIIRSetResponse a1 b0 delay response1 = (Some XLAL_EBADLEN, response1))"
proof -
  have "map (\<lambda>_. 0 :: complex) response1 = map (\<lambda>_. 0) response2"
    if "length response1 = length response2"
    using that by (simp add: map_replicate_const)
  then show ?thesis
    by (auto simp: XLALInspiralIIRSetResponse_def)
qed


theorem C10_response_independent_of_initial_contents_witness:
  "XLALInspiralIIRSetResponse [1 / 2] [1] [0] [5, 7]
     = XLALInspiralIIRSetResponse [1 / 2] [1] [0] [0, 9] \<and>
   XLALInspiralIIRSetResponse [1 / 2] [] [0] [5, 7] = (Some XLAL_EBADLEN, [5, 7])"
  using C10_response_independent_of_initial_contents [of "[1 / 2]" "[1]" "[0]" "[5, 7]" "[0, 9]"]
    C10_response_independent_of_initial_contents [of "[1 / 2]" "[]" "[0]" "[5, 7]" "[]"]
  by simp


lemma exp_3_bounds: "(20 :: real) < exp 3 \<and> exp (3 :: real) \<le> 201 / 10"
proof -
  obtain t :: real where t: "\<bar>t\<bar> \<le> \<bar>3\<bar>"
    and e: "exp 3 = (\<Sum>m<13. (3 ^ m) / fact m) + (exp t / fact 13) * 3 ^ 13"
    using Maclaurin_exp_le [of 3 13] by blast
  have "(\<Sum>m<13. ((3 :: real) ^ m) / fact m)
      = 3 ^ 0 / fact 0 + 3 ^ 1 / fact 1 + 3 ^ 2 / fact 2 + 3 ^ 3 / fact 3 + 3 ^ 4 / fact 4
        + 3 ^ 5 / fact 5 + 3 ^ 6 / fact 6 + 3 ^ 7 / fact 7 + 3 ^ 8 / fact 8 + 3 ^ 9 / fact 9
        + 3 ^ 10 / fact 10 + 3 ^ 11 / fact 11 + 3 ^ 12 / fact 12"
    by (simp add: eval_nat_numeral)
  also have "\<dots> = 39591971 / 1971200"
    by (simp add: fact_numeral)
  finally have s: "(\<Sum>m<13. ((3 :: real) ^ m) / fact m) = 39591971 / 1971200" .
  have r: "(exp t / fact 13) * 3 ^ 13 = exp t * (6561 / 25625600)"
    by (simp add: fact_numeral)
  have "exp t \<le> exp 3" using t by simp
  also have "exp (3 :: real) = exp 1 ^ 3" by (simp add: exp_of_nat_mult [symmetric])
  also have "\<dots> \<le> 3 ^ 3" using exp_le by (intro power_mono) simp_all
  finally have hi: "exp t \<le> 27" by simp
  have lo: "0 < exp t" by simp
  from e have "exp 3 = 39591971 / 1971200 + exp t * (6561 / 25625600)"
    by (simp only: s r)
  with hi lo show ?thesis by linarith
qed

lemma ln_truncation_constant:
  "297 / 10 \<le> - ln (1 / 10 ^ 13 :: real) \<and> - ln (1 / 10 ^ 13 :: real) < 30"
proof -
  have ln13: "- ln (1 / 10 ^ 13 :: real) = ln (10 ^ 13)"
    by (simp add: ln_div)
  have "(10 :: real) ^ 13 < 20 ^ 10" by simp
  also have "\<dots> < exp 3 ^ 10" using exp_3_bounds by (intro power_strict_mono) simp_all
  also have "\<dots> = exp 30" by (simp add: exp_of_nat_mult [symmetric])
  finally have "ln ((10 :: real) ^ 13) < ln (exp 30)"
    by (subst ln_less_cancel_iff) simp_all
  then have up: "ln ((10 :: real) ^ 13) < 30" by simp
  have q: "1 + 3 / 10 + (3 / 10)\<^sup>2 / 2 \<le> exp (3 / 10 :: real)"
    by (rule exp_lower_Taylor_quadratic) simp
  have "exp (297 / 10 :: real) = exp 30 / exp (3 / 10)"
    by (simp add: exp_diff [symmetric])
  also have "exp (30 :: real) = exp 3 ^ 10" by (simp add: exp_of_nat_mult [symmetric])
  also have "exp 3 ^ 10 / exp (3 / 10 :: real) \<le> (201 / 10) ^ 10 / (1 + 3 / 10 + (3 / 10)\<^sup>2 / 2)"
    using exp_3_bounds q by (intro frac_le power_mono) (simp_all add: power2_eq_square)
  also have "\<dots> \<le> 10 ^ 13" by (simp add: power2_eq_square power_divide)
  finally have "ln (exp (297 / 10 :: real)) \<le> ln (10 ^ 13)"
    by (subst ln_le_cancel_iff) simp_all
  then have "297 / 10 \<le> ln ((10 :: real) ^ 13)" by simp
  with up ln13 show ?thesis by simp
qed

lemma trunc_ln_constant: "trunc (ln (1 / 10 ^ 13)) = - 29"
proof -
  from ln_truncation_constant
  have "- 30 < ln (1 / 10 ^ 13 :: real)" "ln (1 / 10 ^ 13 :: real) \<le> - 29" by simp_all
  then have "\<lceil>ln (1 / 10 ^ 13 :: real)\<rceil> = - 29" "ln (1 / 10 ^ 13 :: real) < 0"
    by (simp_all add: ceiling_eq_iff)
  then show ?thesis by (simp add: trunc_def)
qed


lemma filter_response_in_range:
  "0 \<le> pos \<Longrightarrow> pos + int n \<le> int (length r) \<Longrightarrow>
   \<exists>r'. filter_response a y pos n r = Some r' \<and> length r' = length r \<and>
        (\<forall>i < length r. r' ! i =
           (if pos \<le> int i \<and> int i < pos + int n
            then r ! i + y * a ^ (nat (int i - pos) + 1) else r ! i))"
proof (induction n arbitrary: y pos r)
  case 0
  then show ?case by auto
next
  case (Suc n)
  let ?r = "r[nat pos := vec_at r pos + y * a]"
  from Suc.prems have inv: "in_vec r pos" by (simp add: in_vec_def)
  from Suc.prems have "0 \<le> pos + 1" "pos + 1 + int n \<le> int (length ?r)" by simp_all
  from Suc.IH [OF this, of "y * a"] obtain r' where
    r': "filter_response a (y * a) (pos + 1) n ?r = Some r'" "length r' = length r"
    and nth: "\<And>i. i < length r \<Longrightarrow> r' ! i =
           (if pos + 1 \<le> int i \<and> int i < pos + 1 + int n
            then ?r ! i + y * a * a ^ (nat (int i - (pos + 1)) + 1) else ?r ! i)"
    by auto
  have "r' ! i = (if pos \<le> int i \<and> int i < pos + int (Suc n)
            then r ! i + y * a ^ (nat (int i - pos) + 1) else r ! i)" if i: "i < length r" for i
  proof (cases "int i = pos")
    case True
    then have "nat pos = i" by simp
    with nth [OF i] i True show ?thesis by (simp add: vec_at_def)
  next
    case False
    then have ne: "nat pos \<noteq> i" using Suc.prems(1) by auto
    show ?thesis
    proof (cases "pos + 1 \<le> int i \<and> int i < pos + 1 + int n")
      case True
      then have "nat (int i - pos) = Suc (nat (int i - (pos + 1)))" by arith
      with nth [OF i] True ne show ?thesis by simp
    next
      case False
      with nth [OF i] ne \<open>int i \<noteq> pos\<close> show ?thesis by auto
    qed
  qed
  with r' inv show ?case by simp
qed

lemma example_decay:
  "cmod (complex_of_real (exp (- (3 / 10)))) = exp (- (3 / 10))"
  "ln (cmod (complex_of_real (exp (- (3 / 10))))) = - 3 / 10"
  by simp_all

lemma example_truncation_length:
  "truncation_length (complex_of_real (exp (- (3 / 10)))) = Some 96"
proof -
  have "exp (- (3 / 10) :: real) \<noteq> 1" by simp
  then show ?thesis
    by (simp only: truncation_length_def trunc_ln_constant example_decay)
       (simp add: int_of_double_def trunc_def)
qed

lemma claimed_truncation_length:
  "\<lfloor>ln (1 / 10 ^ 13) / ln (cmod (complex_of_real (exp (- (3 / 10)))))\<rfloor> = 99"
proof -
  have "ln (1 / 10 ^ 13) / ln (cmod (complex_of_real (exp (- (3 / 10)))))
          = (- ln (1 / 10 ^ 13 :: real)) * (10 / 3)"
    by (simp only: example_decay) simp
  moreover have "99 \<le> (- ln (1 / 10 ^ 13 :: real)) * (10 / 3)"
    "(- ln (1 / 10 ^ 13 :: real)) * (10 / 3) < 100"
    using ln_truncation_constant by simp_all
  ultimately show ?thesis by (simp add: floor_eq_iff)
qed


text \<open>
  C3. The claim gives the number of accumulated terms as \<open>log(10\<^sup>-\<^sup>1\<^sup>3)/log(|a1|)\<close> capped at
  \<open>L - delay\<close>. In line 169 the cast \<^verbatim>\<open>(int)\<close> binds to \<^verbatim>\<open>logf(1e-13)\<close> alone, so the routine
  divides \<open>-29\<close>, not \<open>-29.93\<dots>\<close>, by \<open>log(|a1|)\<close>. For the single filter \<open>a1 = exp(-3/10)\<close>,
  \<open>b0 = 1\<close>, \<open>delay = 0\<close> and a buffer of 100 samples the routine accumulates 96 terms (the
  last one \<open>b0\<cdot>a1\<^sup>9\<^sup>5\<close> at index 95, nothing at index 96), where the claimed length is 99 and
  asks for the term \<open>b0\<cdot>a1\<^sup>9\<^sup>6 \<noteq> 0\<close> at index 96.
\<close>

theorem C3_truncation_length_divergence:
  "truncation_length (complex_of_real (exp (- (3 / 10)))) = Some 96 \<and>
   \<lfloor>ln (1 / 10 ^ 13) / ln (cmod (complex_of_real (exp (- (3 / 10)))))\<rfloor> = 99 \<and>
   fst (XLALInspiralIIRSetResponse [complex_of_real (exp (- (3 / 10)))] [1] [0] (replicate 100 0))
     = None \<and>
   snd (XLALInspiralIIRSetResponse [complex_of_real (exp (- (3 / 10)))] [1] [0] (replicate 100 0))
     ! 95 = 1 * complex_of_real (exp (- (3 / 10))) ^ 95 \<and>
   snd (XLALInspiralIIRSetResponse [complex_of_real (exp (- (3 / 10)))] [1] [0] (replicate 100 0))
     ! 96 = 0 \<and>
   1 * complex_of_real (exp (- (3 / 10))) ^ 96 \<noteq> 0"
proof -
  let ?a = "complex_of_real (exp (- (3 / 10)))"
  let ?r0 = "replicate 100 (0 :: complex)"
  have a0: "?a \<noteq> 0" by simp
  obtain r' where r': "filter_response ?a (1 / ?a) 0 96 ?r0 = Some r'"
    and nth: "\<And>i. i < 100 \<Longrightarrow> r' ! i =
           (if 0 \<le> int i \<and> int i < 0 + int 96
            then ?r0 ! i + (1 / ?a) * ?a ^ (nat (int i - 0) + 1) else ?r0 ! i)"
    using filter_response_in_range [of 0 96 ?r0 ?a "1 / ?a"] by auto
  have run: "XLALInspiralIIRSetResponse [?a] [1] [0] ?r0 = (None, r')"
    using r' by (simp add: XLALInspiralIIRSetResponse_def example_truncation_length
          del: truncation_length_def)
  have "r' ! 95 = (1 / ?a) * ?a ^ 96" using nth [of 95] by simp
  also have "\<dots> = 1 * ?a ^ 95" using a0 by (simp add: power_Suc [where n = 95, simplified])
  finally have n95: "r' ! 95 = 1 * ?a ^ 95" .
  have n96: "r' ! 96 = 0" using nth [of 96] by simp
  show ?thesis
    using example_truncation_length claimed_truncation_length run n95 n96 a0 by simp
qed

theorem C3_truncation_length_divergence_witness:
  "fst (XLALInspiralIIRSetResponse [complex_of_real (exp (- (3 / 10)))] [1] [0] (replicate 100 0))
     = None \<and>
   snd (XLALInspiralIIRSetResponse [complex_of_real (exp (- (3 / 10)))] [1] [0] (replicate 100 0))
     ! 96 = 0"
  using C3_truncation_length_divergence by blast


section \<open>Properties of the inner product\<close>

lemma inner_product_fold_scale:
  fixes c :: real
  assumes "c \<noteq> 0" "n \<le> length psd"
  shows "fold (\<lambda>j ip. ip + h j * h j / (map ((*) c) psd ! j * m) * 1.0) [0..<n] (acc / c)
       = fold (\<lambda>j ip. ip + h j * h j / (psd ! j * m) * 1.0) [0..<n] acc / c"
  using assms(2)
proof (induction n)
  case 0
  show ?case by simp
next
  case (Suc n)
  then have "n < length psd" by simp
  with Suc show ?case
    by (simp add: add_divide_distrib)
qed


text \<open>
  C8. For every filter set and every strictly positive PSD sequence, multiplying every
  PSD entry by a constant \<open>c > 0\<close> divides the inner product by \<open>c\<close> (and leaves a run
  that reads outside \<open>b0\<close> or \<open>delay\<close> as it is).
\<close>

theorem C8_inner_product_scales_inversely:
  assumes "0 < c" and "\<forall>p \<in> set psd. 0 < p"
  shows "XLALInspiralCalculateIIRSetInnerProduct a1 b0 delay (map ((*) c) psd)
           = map_sum id (\<lambda>ip. ip / c) (XLALInspiralCalculateIIRSetInnerProduct a1 b0 delay psd)"
proof -
  from assms(1) have c: "c \<noteq> 0" by simp
  show ?thesis
    using inner_product_fold_scale [OF c le_refl,
        of "\<lambda>j. cmod (filter_bank_hA a1 b0 delay (length psd) j)" psd "real (length psd)" 0]
    by (simp add: XLALInspiralCalculateIIRSetInnerProduct_def)
qed

theorem C8_inner_product_scales_inversely_witness:
  "(0 :: real) < 2 \<and> list_all (\<lambda>p. 0 < p) [1, 3 :: real] \<and>
   XLALInspiralCalculateIIRSetInnerProduct [1 / 2, \<i> / 3] [1, 2] [0, 4] (map ((*) 2) [1, 3])
     = map_sum id (\<lambda>ip. ip / 2)
         (XLALInspiralCalculateIIRSetInnerProduct [1 / 2, \<i> / 3] [1, 2] [0, 4] [1, 3])"
proof -
  have h1: "(0 :: real) < 2" by simp
  have h2: "\<forall>p \<in> set [1, 3 :: real]. 0 < p" by simp
  from C8_inner_product_scales_inversely [OF h1 h2, of "[1 / 2, \<i> / 3]" "[1, 2]" "[0, 4]"]
  show ?thesis by simp
qed


section \<open>Properties of the lookup tables\<close>

lemma lut_idx_bound: "0 \<le> x \<Longrightarrow> x < 1 \<Longrightarrow> lut_idx x \<le> LUT_RES"
proof -
  assume "0 \<le> x" "x < 1"
  then have "x * 64 + 1 / 2 < 65" by simp
  then have "\<lfloor>x * 64 + 1 / 2\<rfloor> \<le> 64" by linarith
  then have "nat \<lfloor>x * 64 + 1 / 2\<rfloor> \<le> 64" by linarith
  then show ?thesis by (simp add: lut_idx_def LUT_RES_def)
qed

subsection \<open>What the series does achieve\<close>

lemma sin_minus_linear:
  fixes h :: real
  shows "\<bar>sin h - h\<bar> \<le> \<bar>h\<bar> ^ 3 / 6"
proof -
  have "\<bar>sin h - (\<Sum>m<3. sin_coeff m * h ^ m)\<bar> \<le> inverse (fact 3) * \<bar>h\<bar> ^ 3"
    by (rule Maclaurin_sin_bound)
  moreover have "(\<Sum>m<3. sin_coeff m * h ^ m)
      = sin_coeff 0 * h ^ 0 + sin_coeff (Suc 0) * h ^ 1 + sin_coeff 2 * h ^ 2"
    by (simp add: eval_nat_numeral)
  moreover have "sin_coeff 0 = 0" "sin_coeff (Suc 0) = 1" "sin_coeff 2 = 0"
    by (simp_all add: sin_coeff_def)
  moreover have "inverse (fact 3) * \<bar>h\<bar> ^ 3 = \<bar>h\<bar> ^ 3 / 6"
    by (simp add: fact_numeral)
  ultimately show ?thesis by simp
qed

lemma cos_minus_quadratic:
  fixes h :: real
  shows "\<bar>cos h - (1 - h\<^sup>2 / 2)\<bar> \<le> \<bar>h\<bar> ^ 4 / 24"
proof -
  define u where "u = h / 2"
  define s where "s = sin u"
  have "cos h = 1 - 2 * s\<^sup>2"
    using cos_double_sin [of u] by (simp add: u_def s_def)
  then have "cos h - (1 - h\<^sup>2 / 2) = 2 * ((u - s) * (u + s))"
    by (simp add: u_def power2_eq_square algebra_simps)
  then have "\<bar>cos h - (1 - h\<^sup>2 / 2)\<bar> = 2 * (\<bar>u - s\<bar> * \<bar>u + s\<bar>)"
    by (simp add: abs_mult)
  moreover have "\<bar>u - s\<bar> \<le> \<bar>u\<bar> ^ 3 / 6"
    using sin_minus_linear [of u] by (simp add: s_def abs_minus_commute)
  moreover have "\<bar>u + s\<bar> \<le> 2 * \<bar>u\<bar>"
    using abs_sin_x_le_abs_x [of u] unfolding s_def by linarith
  moreover have "\<bar>u - s\<bar> * \<bar>u + s\<bar> \<le> (\<bar>u\<bar> ^ 3 / 6) * (2 * \<bar>u\<bar>)"
    using calculation(2,3) by (intro mult_mono) simp_all
  ultimately have "\<bar>cos h - (1 - h\<^sup>2 / 2)\<bar> \<le> 2 * ((\<bar>u\<bar> ^ 3 / 6) * (2 * \<bar>u\<bar>))"
    by linarith
  also have "\<dots> = \<bar>h\<bar> ^ 4 / 24"
    by (simp add: u_def power_divide eval_nat_numeral)
  finally show ?thesis .
qed

lemma abs_mult_le_unit:
  fixes a b c :: real
  assumes "\<bar>a\<bar> \<le> 1" and "\<bar>b\<bar> \<le> c"
  shows "\<bar>a * b\<bar> \<le> c"
proof -
  have "\<bar>a\<bar> * \<bar>b\<bar> \<le> 1 * c" using assms by (intro mult_mono) simp_all
  then show ?thesis by (simp add: abs_mult)
qed

lemma lut_residual:
  assumes "0 \<le> x"
  shows "\<bar>x - divLUTtab (lut_idx x)\<bar> \<le> 1 / 128"
proof -
  define n where "n = \<lfloor>x * 64 + 1 / 2\<rfloor>"
  have "0 \<le> n" using assms by (simp add: n_def)
  then have idx: "real (lut_idx x) = of_int n"
    by (simp add: lut_idx_def LUT_RES_def n_def)
  have "of_int n \<le> x * 64 + 1 / 2" "x * 64 + 1 / 2 < of_int n + 1"
    unfolding n_def by linarith+
  then have "\<bar>x - of_int n / 64\<bar> \<le> 1 / 128" by linarith
  then show ?thesis by (simp add: divLUTtab_def LUT_RES_def idx)
qed

lemma lut_tables:
  assumes "t = 2 * pi * real k / 64"
  shows "sinVal k = sin t" "cosVal k = cos t"
    "sinVal2PI k = sin t * (2 * pi)" "cosVal2PI k = cos t * (2 * pi)"
    "sinVal2PIPI k = sin t * (2 * pi) * pi" "cosVal2PIPI k = cos t * (2 * pi) * pi"
proof -
  have s: "sinVal k = sin t" if "t = 2 * pi * real k / 64" for k t
    unfolding that by (simp add: sinVal_def LUT_RES_def)
  have "t + pi / 2 = 2 * pi * real (k + 16) / 64"
    unfolding assms by (simp add: field_simps)
  from s [OF this] have c: "sinVal (k + 16) = cos t"
    by (simp add: sin_add)
  from s [OF assms] c show "sinVal k = sin t" "cosVal k = cos t"
    "sinVal2PI k = sin t * (2 * pi)" "cosVal2PI k = cos t * (2 * pi)"
    "sinVal2PIPI k = sin t * (2 * pi) * pi" "cosVal2PIPI k = cos t * (2 * pi) * pi"
    by (simp_all add: cosVal_def sinVal2PI_def cosVal2PI_def sinVal2PIPI_def
          cosVal2PIPI_def LUT_RES_def)
qed

lemma lut_error_bound:
  assumes "0 \<le> x"
  shows "\<bar>lut_sin x - sin (2 * pi * x)\<bar> \<le> 5 / 10 ^ 5"
    and "\<bar>lut_cos x - cos (2 * pi * x)\<bar> \<le> 5 / 10 ^ 5"
proof -
  define k where "k = lut_idx x"
  define d where "d = x - divLUTtab k"
  define t where "t = 2 * pi * real k / 64"
  define h where "h = 2 * pi * d"
  have d: "\<bar>d\<bar> \<le> 1 / 128" using lut_residual [OF assms] by (simp add: d_def k_def)
  have "\<bar>h\<bar> = 2 * pi * \<bar>d\<bar>" by (simp add: h_def abs_mult)
  also have "\<dots> \<le> 2 * 4 * (1 / 128)"
    using d pi_less_4 by (intro mult_mono) simp_all
  finally have h: "\<bar>h\<bar> \<le> 1 / 16" by simp
  have h3: "\<bar>h\<bar> ^ 3 \<le> (1 / 16) ^ 3" and h4: "\<bar>h\<bar> ^ 4 \<le> (1 / 16) ^ 4"
    using h by (intro power_mono; simp)+
  have arg: "2 * pi * x = t + h"
    by (simp add: t_def h_def d_def divLUTtab_def LUT_RES_def field_simps)
  have "lut_sin x = sinVal k + d * cosVal2PI k - d * d * sinVal2PIPI k"
    by (simp add: lut_sin_def Let_def k_def d_def)
  then have S: "lut_sin x = sin t + h * cos t - h\<^sup>2 / 2 * sin t"
    by (simp add: lut_tables [OF t_def] h_def power2_eq_square)
  have "lut_cos x = cosVal k - d * sinVal2PI k - d * d * cosVal2PIPI k"
    by (simp add: lut_cos_def Let_def k_def d_def)
  then have C: "lut_cos x = cos t - h * sin t - h\<^sup>2 / 2 * cos t"
    by (simp add: lut_tables [OF t_def] h_def power2_eq_square)
  have es: "lut_sin x - sin (2 * pi * x)
      = cos t * (h - sin h) - sin t * (cos h - (1 - h\<^sup>2 / 2))"
    unfolding arg S sin_add by (simp add: algebra_simps)
  have ec: "lut_cos x - cos (2 * pi * x)
      = - (sin t * (h - sin h)) - cos t * (cos h - (1 - h\<^sup>2 / 2))"
    unfolding arg C cos_add by (simp add: algebra_simps)
  have l: "\<bar>h - sin h\<bar> \<le> \<bar>h\<bar> ^ 3 / 6"
    using sin_minus_linear [of h] by (simp add: abs_minus_commute)
  have r1: "\<bar>cos t * (h - sin h)\<bar> \<le> \<bar>h\<bar> ^ 3 / 6" "\<bar>sin t * (h - sin h)\<bar> \<le> \<bar>h\<bar> ^ 3 / 6"
    by (rule abs_mult_le_unit [OF _ l], simp)+
  have r2: "\<bar>sin t * (cos h - (1 - h\<^sup>2 / 2))\<bar> \<le> \<bar>h\<bar> ^ 4 / 24"
    "\<bar>cos t * (cos h - (1 - h\<^sup>2 / 2))\<bar> \<le> \<bar>h\<bar> ^ 4 / 24"
    by (rule abs_mult_le_unit [OF _ cos_minus_quadratic], simp)+
  have num: "(1 / 16 :: real) ^ 3 / 6 + (1 / 16) ^ 4 / 24 \<le> 5 / 10 ^ 5"
    by (simp add: power_divide)
  show "\<bar>lut_sin x - sin (2 * pi * x)\<bar> \<le> 5 / 10 ^ 5"
    unfolding es using r1(1) r2(1) h3 h4 num by linarith
  show "\<bar>lut_cos x - cos (2 * pi * x)\<bar> \<le> 5 / 10 ^ 5"
    unfolding ec using r1(2) r2(2) h3 h4 num by linarith
qed

subsection \<open>The accuracy that is claimed\<close>

lemma lut_idx_small: "lut_idx (3 / 400) = 0"
  by (simp add: lut_idx_def LUT_RES_def)

lemma lut_sin_value: "lut_sin (3 / 400) = 3 / 400 * (2 * pi)"
  by (simp add: lut_sin_def lut_idx_small divLUTtab_def sinVal_def sinVal2PI_def
        sinVal2PIPI_def cosVal2PI_def LUT_RES_def)

lemma sin_upper_cubic:
  fixes x :: real
  assumes "0 \<le> x"
  shows "sin x \<le> x - x ^ 3 / 6 + x ^ 5 / 120"
proof -
  have bound: "\<bar>sin x - (\<Sum>m<5. sin_coeff m * x ^ m)\<bar> \<le> inverse (fact 5) * \<bar>x\<bar> ^ 5"
    by (rule Maclaurin_sin_bound)
  have coeffs: "sin_coeff 0 = 0" "sin_coeff (Suc 0) = 1" "sin_coeff 2 = 0" "sin_coeff 3 = - 1 / 6"
    "sin_coeff 4 = 0"
    by (simp_all add: sin_coeff_def fact_numeral)
  have "(\<Sum>m<5. sin_coeff m * x ^ m)
      = sin_coeff 0 * x ^ 0 + sin_coeff 1 * x ^ 1 + sin_coeff 2 * x ^ 2 + sin_coeff 3 * x ^ 3
          + sin_coeff 4 * x ^ 4"
    by (simp add: eval_nat_numeral)
  then have series: "(\<Sum>m<5. sin_coeff m * x ^ m) = x - x ^ 3 / 6"
    by (simp add: coeffs)
  have rest: "inverse (fact 5) * \<bar>x\<bar> ^ 5 = x ^ 5 / 120"
    using assms by (simp add: fact_numeral)
  from bound show ?thesis unfolding series rest by linarith
qed


text \<open>
  C5. The claim bounds the error of the table sine by \<open>10\<^sup>-\<^sup>6\<close> on \<open>[0, 1)\<close>, as the comment
  of line 103 does (\<open>~ 10\<^sup>-\<^sup>7\<close>). With \<^verbatim>\<open>LUT_RES = 64\<close> the distance to the closest table
  entry reaches \<open>1/128\<close> and the cubic remainder of the series is about \<open>2 \<cdot> 10\<^sup>-\<^sup>5\<close>: at the
  fractional phase \<open>3/400\<close> the closest entry is entry 0, the series gives \<open>2\<pi> \<cdot> 3/400\<close>, and
  its distance from \<open>sin (2\<pi> \<cdot> 3/400)\<close> is at least \<open>10\<^sup>-\<^sup>6\<close>. What holds on all of \<open>[0, 1)\<close>,
  for the sine and for the cosine, is the bound \<open>5 \<cdot> 10\<^sup>-\<^sup>5\<close> of \<open>lut_error_bound\<close>.
\<close>

theorem C5_lookup_sine_error:
  "1 / 10 ^ 6 \<le> \<bar>lut_sin (3 / 400) - sin (2 * pi * (3 / 400))\<bar>"
proof -
  define t :: real where "t = 2 * pi * (3 / 400)"
  have t_lo: "3 / 100 \<le> t" using pi_ge_two by (simp add: t_def)
  have t_hi: "t \<le> 6 / 100" using pi_less_4 by (simp add: t_def)
  have t0: "0 \<le> t" using t_lo by simp
  have p3: "(3 / 100) ^ 3 \<le> t ^ 3" using t_lo by (intro power_mono) simp_all
  have "t ^ 5 = t ^ 3 * t ^ 2" by (simp add: power_add [symmetric])
  also have "t ^ 2 \<le> (6 / 100) ^ 2" using t_hi t0 by (intro power_mono) simp_all
  finally have p5: "t ^ 5 \<le> t ^ 3 * (6 / 100) ^ 2"
    using t0 by (simp add: mult_left_mono)
  have "t - sin t \<ge> t ^ 3 / 6 - t ^ 5 / 120"
    using sin_upper_cubic [OF t0] by simp
  moreover have "t ^ 3 / 6 - t ^ 5 / 120 \<ge> t ^ 3 * (1 / 6 - (6 / 100) ^ 2 / 120)"
    using p5 by (simp add: field_simps)
  moreover have "t ^ 3 * (1 / 6 - (6 / 100) ^ 2 / 120) \<ge> (3 / 100) ^ 3 * (1 / 6 - (6 / 100) ^ 2 / 120)"
    using p3 by (intro mult_right_mono) (simp_all add: power2_eq_square)
  moreover have "(3 / 100 :: real) ^ 3 * (1 / 6 - (6 / 100) ^ 2 / 120) \<ge> 1 / 10 ^ 6"
    by (simp add: power2_eq_square power3_eq_cube)
  ultimately have "1 / 10 ^ 6 \<le> t - sin t" by linarith
  moreover have "lut_sin (3 / 400) = t" by (simp add: lut_sin_value t_def)
  ultimately show ?thesis by (simp add: t_def)
qed



section \<open>Properties of the demodulation loop\<close>

lemma segments_loop_sums:
  "segments_loop maxSFTindex SMALL input params f alphas (Fa0, Fb0) = Inr (Fa, Fb) \<Longrightarrow>
   Fa = Fa0 + (\<Sum>alpha\<leftarrow>alphas. complex_of_real (amcoe_a (amcoe params) alpha)
                   * projr (fst (demod_segment maxSFTindex SMALL input params f alpha))) \<and>
   Fb = Fb0 + (\<Sum>alpha\<leftarrow>alphas. complex_of_real (amcoe_b (amcoe params) alpha)
                   * projr (fst (demod_segment maxSFTindex SMALL input params f alpha)))"
proof (induction alphas arbitrary: Fa0 Fb0)
  case Nil
  then show ?case by simp
next
  case (Cons alpha alphas)
  from Cons.prems obtain QXP where
    seg: "fst (demod_segment maxSFTindex SMALL input params f alpha) = Inr QXP"
    by (auto split: sum.splits)
  let ?a = "amcoe_a (amcoe params) alpha" and ?b = "amcoe_b (amcoe params) alpha"
  have a: "Complex (Re Fa0 + ?a * Re QXP) (Im Fa0 + ?a * Im QXP) = Fa0 + complex_of_real ?a * QXP"
    and b: "Complex (Re Fb0 + ?b * Re QXP) (Im Fb0 + ?b * Im QXP) = Fb0 + complex_of_real ?b * QXP"
    by (simp_all add: complex_eq_iff)
  from Cons.prems seg
  have "segments_loop maxSFTindex SMALL input params f alphas
          (Fa0 + complex_of_real ?a * QXP, Fb0 + complex_of_real ?b * QXP) = Inr (Fa, Fb)"
    by (simp add: a b Let_def)
  from Cons.IH [OF this] seg show ?case by (simp add: add.assoc)
qed

lemma cmod_square: "(cmod z)\<^sup>2 = Re z * Re z + Im z * Im z"
  by (subst cmod_power2) (simp add: power2_eq_square)

lemma store_bin_at:
  "store_bin params i (Fa, Fb) (F, Fa_out, Fb_out) = (F', Fa_out', Fb_out') \<Longrightarrow>
   F' i = F_statistic params Fa Fb \<and>
   (returnFaFb params \<longrightarrow> Fa_out' = map_option (\<lambda>p. p(i := Fa)) Fa_out
                           \<and> Fb_out' = map_option (\<lambda>p. p(i := Fb)) Fb_out)"
  by (auto simp: store_bin_def Let_def cmod_square split: if_splits)

lemma store_bin_other:
  "store_bin params i FaFb (F, Fa_out, Fb_out) = (F', Fa_out', Fb_out') \<Longrightarrow> j \<noteq> i \<Longrightarrow>
   F' j = F j \<and> map_option (\<lambda>p. p j) Fa_out' = map_option (\<lambda>p. p j) Fa_out
     \<and> map_option (\<lambda>p. p j) Fb_out' = map_option (\<lambda>p. p j) Fb_out"
  by (cases FaFb) (auto simp: store_bin_def Let_def option.map_comp comp_def split: if_splits)

lemma bins_loop_other:
  "bins_loop maxSFTindex SMALL input params bins (F, Fa_out, Fb_out) = (st, F', Fa_out', Fb_out') \<Longrightarrow>
   j \<notin> set bins \<Longrightarrow>
   F' j = F j \<and> map_option (\<lambda>p. p j) Fa_out' = map_option (\<lambda>p. p j) Fa_out
     \<and> map_option (\<lambda>p. p j) Fb_out' = map_option (\<lambda>p. p j) Fb_out"
proof (induction bins arbitrary: F Fa_out Fb_out)
  case Nil
  then show ?case by simp
next
  case (Cons i bins)
  show ?case
  proof (cases "segments_loop maxSFTindex SMALL input params (f0 params + of_int i * df params)
                  [0 .. SFTno params - 1] (0, 0)")
    case (Inl e)
    with Cons.prems show ?thesis by (simp add: Let_def)
  next
    case (Inr FaFb)
    obtain F1 Fa1 Fb1 where st: "store_bin params i FaFb (F, Fa_out, Fb_out) = (F1, Fa1, Fb1)"
      by (metis prod_cases3)
    from Cons.prems Inr st
    have "bins_loop maxSFTindex SMALL input params bins (F1, Fa1, Fb1) = (st, F', Fa_out', Fb_out')"
      by (simp add: Let_def)
    moreover have "j \<notin> set bins" "j \<noteq> i" using Cons.prems(2) by auto
    ultimately show ?thesis
      using Cons.IH [of F1 Fa1 Fb1] store_bin_other [OF st, of j] by simp
  qed
qed

lemma bins_loop_at:
  "bins_loop maxSFTindex SMALL input params bins (F, Fa_out, Fb_out) = (None, F', Fa_out', Fb_out') \<Longrightarrow>
   distinct bins \<Longrightarrow> i \<in> set bins \<Longrightarrow>
   \<exists>Fa Fb. segments_loop maxSFTindex SMALL input params (f0 params + of_int i * df params)
             [0 .. SFTno params - 1] (0, 0) = Inr (Fa, Fb) \<and>
           F' i = F_statistic params Fa Fb \<and>
           (returnFaFb params \<longrightarrow>
              map_option (\<lambda>p. p i) Fa_out' = map_option (\<lambda>p. Fa) Fa_out \<and>
              map_option (\<lambda>p. p i) Fb_out' = map_option (\<lambda>p. Fb) Fb_out)"
proof (induction bins arbitrary: F Fa_out Fb_out)
  case Nil
  then show ?case by simp
next
  case (Cons i' bins)
  show ?case
  proof (cases "segments_loop maxSFTindex SMALL input params (f0 params + of_int i' * df params)
                  [0 .. SFTno params - 1] (0, 0)")
    case (Inl e)
    with Cons.prems show ?thesis by (simp add: Let_def)
  next
    case (Inr FaFb)
    obtain Fa Fb where FaFb: "FaFb = (Fa, Fb)" by (cases FaFb)
    obtain F1 Fa1 Fb1 where st: "store_bin params i' (Fa, Fb) (F, Fa_out, Fb_out) = (F1, Fa1, Fb1)"
      by (metis prod_cases3)
    from Cons.prems Inr st FaFb
    have rest: "bins_loop maxSFTindex SMALL input params bins (F1, Fa1, Fb1)
                  = (None, F', Fa_out', Fb_out')"
      by (simp add: Let_def)
    show ?thesis
    proof (cases "i = i'")
      case True
      with Cons.prems(2) have "i \<notin> set bins" by simp
      from bins_loop_other [OF rest this] store_bin_at [OF st] Inr FaFb True
      show ?thesis by (auto simp: option.map_comp comp_def)
    next
      case False
      with Cons.prems have "distinct bins" "i \<in> set bins" by simp_all
      from Cons.IH [OF rest this] obtain Fa' Fb' where
        seg: "segments_loop maxSFTindex SMALL input params (f0 params + of_int i * df params)
             [0 .. SFTno params - 1] (0, 0) = Inr (Fa', Fb')"
        and F: "F' i = F_statistic params Fa' Fb'"
        and ret: "returnFaFb params \<longrightarrow>
              map_option (\<lambda>p. p i) Fa_out' = map_option (\<lambda>p. Fa') Fa1 \<and>
              map_option (\<lambda>p. p i) Fb_out' = map_option (\<lambda>p. Fb') Fb1"
        by blast
      have "map_option (\<lambda>p. Fa') Fa1 = map_option (\<lambda>p. Fa') Fa_out"
           "map_option (\<lambda>p. Fb') Fb1 = map_option (\<lambda>p. Fb') Fb_out"
        using st by (auto simp: store_bin_def Let_def option.map_comp comp_def split: if_splits)
      with seg F ret show ?thesis by auto
    qed
  qed
qed

lemma example_params_fields [simp]:
  "spinDwnOrder example_params = 0" "spinDwn example_params = (\<lambda>s. 0)"
  "skyConst example_params = (\<lambda>k. if k = 1 then 1 else 0)"
  "SFTno example_params = 1" "f0 example_params = 21 / 2" "df example_params = 1"
  "Dterms example_params = 2" "ifmin example_params = 0" "imax example_params = 1"
  "returnFaFb example_params = True"
  "amcoe_a (amcoe example_params) = (\<lambda>alpha. 1)"
  "amcoe_b (amcoe example_params) = (\<lambda>alpha. 2)"
  "amcoe_A (amcoe example_params) = 1" "amcoe_B (amcoe example_params) = 1"
  "amcoe_C (amcoe example_params) = 0" "amcoe_D (amcoe example_params) = 1"
  by (simp_all add: example_params_def)

lemma LD_SMALL_less_half: "LD_SMALL < 1 / 2"
proof -
  have "(1 / 10 ^ 9) / (2 * pi) \<le> (1 / 10 ^ 9) / (2 * 2 :: real)"
    using pi_ge_two by (intro divide_left_mono) simp_all
  then show ?thesis by (simp add: LD_SMALL_def)
qed

lemma LD_SMALL_pos: "0 < LD_SMALL"
  by (simp add: LD_SMALL_def)

lemma small_offset_step_index:
  "kern_index (small_offset_step Xalpha SMALL tsin tcos s) = kern_index s + 1"
  "kern_reads (small_offset_step Xalpha SMALL tsin tcos s) = kern_reads s @ [kern_index s]"
  by (simp_all add: small_offset_step_def Let_def split: prod.splits)

lemma small_offset_loop_index:
  "kern_index ((small_offset_step Xalpha SMALL tsin tcos ^^ n) s) = kern_index s + int n \<and>
   kern_reads ((small_offset_step Xalpha SMALL tsin tcos ^^ n) s)
     = kern_reads s @ map (\<lambda>k. kern_index s + int k) [0..<n]"
  by (induction n) (simp_all add: small_offset_step_index)

lemma generic_step_index:
  "kern_index (generic_step Xalpha tsin tcos s) = kern_index s + 1"
  "kern_reads (generic_step Xalpha tsin tcos s) = kern_reads s @ [kern_index s]"
  by (simp_all add: generic_step_def Let_def)

lemma generic_loop_index:
  "kern_index ((generic_step Xalpha tsin tcos ^^ n) s) = kern_index s + int n \<and>
   kern_reads ((generic_step Xalpha tsin tcos ^^ n) s)
     = kern_reads s @ map (\<lambda>k. kern_index s + int k) [0..<n]"
  by (induction n) (simp_all add: generic_step_index)

lemma upt_four: "[0..<4] = [0, 1, 2, 3 :: nat]"
  by code_simp

lemma example_sums: "xSum example_params 0 = 0" "ySum example_params 0 = 0"
  "tempInt1 example_params 0 = 1" "klim example_params = 4"
  by (simp_all add: xSum_def ySum_def tempInt1_def klim_def)

lemma example_segment:
  "8 \<le> maxSFTindex \<Longrightarrow>
   \<exists>QXP. demod_segment maxSFTindex SMALL input example_params (21 / 2) 0
           = (Inr QXP, [9, 10, 11, 12])"
  using LD_SMALL_less_half
  by (simp add: demod_segment_def example_sums uint_of_double_def int_of_double_def trunc_def
        Let_def generic_loop_index upt_four)


lemma example_demod_run:
  "8 \<le> maxSFTindex \<Longrightarrow>
   \<exists>Fs'. TestLALDemod maxSFTindex SMALL (Some example_Fs) input example_params = (None, Some Fs')"
proof -
  assume "8 \<le> maxSFTindex"
  then obtain QXP where seg: "demod_segment maxSFTindex SMALL input example_params (21 / 2) 0
           = (Inr QXP, [9, 10, 11, 12])"
    using example_segment [of maxSFTindex SMALL input] by auto
  have bins: "[0 .. imax example_params - 1] = [0]" "[0 .. SFTno example_params - 1] = [0]"
    by (simp_all add: upto.simps)
  obtain out where "bins_loop maxSFTindex SMALL input example_params
      [0 .. imax example_params - 1] (\<lambda>i. 0, Some (\<lambda>i. 0), Some (\<lambda>i. 0)) = out"
    by simp
  moreover have "fst out = None"
    unfolding calculation [symmetric] bins by (simp add: seg Let_def)
  ultimately obtain F' Fa' Fb' where
    "bins_loop maxSFTindex SMALL input example_params
      [0 .. imax example_params - 1] (\<lambda>i. 0, Some (\<lambda>i. 0), Some (\<lambda>i. 0)) = (None, F', Fa', Fb')"
    by (metis fst_conv prod_cases3)
  then have "TestLALDemod maxSFTindex SMALL (Some example_Fs) input example_params
      = (None, Some \<lparr>Fs_F = Some F', Fs_Fa = Fa', Fs_Fb = Fb'\<rparr>)"
    unfolding TestLALDemod_def example_Fs_def by simp
  then show ?thesis by blast
qed


text \<open>
  C2. The claim asks for an abort whenever the window of \<open>2\<cdot>Dterms\<close> samples read from
  \<^verbatim>\<open>sftIndex\<close> on passes \<^verbatim>\<open>maxSFTindex\<close>, and for no abort otherwise. The test of line 327
  looks at \<^verbatim>\<open>sftIndex-1\<close> after the loop. The loop taken for a small offset advances
  \<^verbatim>\<open>sftIndex\<close>, so there the test sees the last index read. The generic loop advances the
  pointer \<^verbatim>\<open>Xalpha_k\<close> instead and leaves \<^verbatim>\<open>sftIndex\<close> at the first index of the window.
  With \<open>Dterms = 2\<close>, \<open>ifmin = 0\<close> and \<open>maxSFTindex = 10\<close>, whatever the spectrum holds:
  at \<open>xTemp = 21/2\<close> the generic loop reads the indices 9 to 12 and the segment is not
  aborted (the whole routine, run on this one bin and segment, returns normally); at \<open>xTemp = 3/2\<close> it reads the indices 0 to 3, all valid, and the segment is
  aborted, because \<open>0 - 1\<close> converted to \<^verbatim>\<open>UINT4\<close> exceeds \<^verbatim>\<open>maxSFTindex\<close>; at \<open>xTemp = 10\<close>
  the small-offset loop reads the indices 9 to 12 and the segment is aborted, as the
  claim says.
\<close>

theorem C2_upper_index_check_divergence:
  "\<not> isl (fst (demod_segment 10 SMALL input example_params (21 / 2) 0)) \<and>
   snd (demod_segment 10 SMALL input example_params (21 / 2) 0) = [9, 10, 11, 12] \<and>
   demod_segment 10 SMALL input example_params (3 / 2) 0
     = (Inl COMPUTEFSTAT_EINPUT, [0, 1, 2, 3]) \<and>
   demod_segment 10 SMALL input example_params 10 0
     = (Inl COMPUTEFSTAT_EINPUT, [9, 10, 11, 12]) \<and>
   fst (TestLALDemod 10 SMALL (Some example_Fs) input example_params) = None"
proof -
  obtain Fs' where "TestLALDemod 10 SMALL (Some example_Fs) input example_params = (None, Some Fs')"
    using example_demod_run [of 10 SMALL input] by auto
  then have "fst (TestLALDemod 10 SMALL (Some example_Fs) input example_params) = None"
    by simp
  moreover
  obtain QXP where "demod_segment 10 SMALL input example_params (21 / 2) 0
           = (Inr QXP, [9, 10, 11, 12])"
    using example_segment [of 10 SMALL input] by auto
  moreover have "demod_segment 10 SMALL input example_params (3 / 2) 0
     = (Inl COMPUTEFSTAT_EINPUT, [0, 1, 2, 3])"
    using LD_SMALL_less_half
    by (simp add: demod_segment_def example_sums uint_of_double_def
          int_of_double_def trunc_def Let_def generic_loop_index upt_four)
  moreover have "demod_segment 10 SMALL input example_params 10 0
     = (Inl COMPUTEFSTAT_EINPUT, [9, 10, 11, 12])"
    using LD_SMALL_pos
    by (simp add: demod_segment_def example_sums uint_of_double_def
          int_of_double_def trunc_def Let_def small_offset_loop_index upt_four)
  ultimately show ?thesis by simp
qed

text \<open>
  C4. When \<^verbatim>\<open>TestLALDemod\<close> returns normally, then for every frequency bin \<open>i\<close> with
  \<open>0 \<le> i < imax\<close> the loop over the segments ends with sums \<open>Fa\<close> and \<open>Fb\<close>, which are the
  sums over all segments of \<open>a\<^sub>\<alpha> \<cdot> Q\<cdot>XP\<close> and \<open>b\<^sub>\<alpha> \<cdot> Q\<cdot>XP\<close>; the entry \<open>i\<close> of the output
  array \<open>F\<close> holds \<open>(4/(M\<cdot>D))\<cdot>(B\<cdot>|Fa|\<^sup>2 + A\<cdot>|Fb|\<^sup>2 - 2C\<cdot>Re(Fa\<cdot>conj(Fb)))\<close>, and when
  \<^verbatim>\<open>returnFaFb\<close> is set the entries \<open>i\<close> of the arrays \<open>Fa\<close> and \<open>Fb\<close> hold \<open>Fa\<close> and \<open>Fb\<close>.
\<close>

theorem C4_statistic_stored_per_bin:
  assumes "TestLALDemod maxSFTindex SMALL Fs input params = (None, Some Fs')"
    and "0 \<le> i" and "i < imax params"
  shows "\<exists>Fa Fb F'.
           segments_loop maxSFTindex SMALL input params (f0 params + of_int i * df params)
             [0 .. SFTno params - 1] (0, 0) = Inr (Fa, Fb) \<and>
           Fa = (\<Sum>alpha\<leftarrow>[0 .. SFTno params - 1]. complex_of_real (amcoe_a (amcoe params) alpha)
                   * projr (fst (demod_segment maxSFTindex SMALL input params
                                   (f0 params + of_int i * df params) alpha))) \<and>
           Fb = (\<Sum>alpha\<leftarrow>[0 .. SFTno params - 1]. complex_of_real (amcoe_b (amcoe params) alpha)
                   * projr (fst (demod_segment maxSFTindex SMALL input params
                                   (f0 params + of_int i * df params) alpha))) \<and>
           Fs_F Fs' = Some F' \<and>
           F' i = F_statistic params Fa Fb \<and>
           (returnFaFb params \<longrightarrow>
              (\<exists>Fa' Fb'. Fs_Fa Fs' = Some Fa' \<and> Fs_Fb Fs' = Some Fb' \<and> Fa' i = Fa \<and> Fb' i = Fb))"
proof -
  from assms(1) obtain fs F where Fs: "Fs = Some fs" and F: "Fs_F fs = Some F"
    and nonnull: "returnFaFb params \<longrightarrow> Fs_Fa fs \<noteq> None \<and> Fs_Fb fs \<noteq> None"
    by (auto simp: TestLALDemod_def split: option.splits if_splits)
  from assms(1) Fs F nonnull obtain F' Fa_out' Fb_out' where
    loop: "bins_loop maxSFTindex SMALL input params [0 .. imax params - 1]
             (F, Fs_Fa fs, Fs_Fb fs) = (None, F', Fa_out', Fb_out')"
    and Fs': "Fs' = \<lparr>Fs_F = Some F', Fs_Fa = Fa_out', Fs_Fb = Fb_out'\<rparr>"
    by (auto simp: TestLALDemod_def split: option.splits if_splits prod.splits)
  have "distinct [0 .. imax params - 1]" "i \<in> set [0 .. imax params - 1]"
    using assms(2,3) by simp_all
  from bins_loop_at [OF loop this] obtain Fa Fb where
    seg: "segments_loop maxSFTindex SMALL input params (f0 params + of_int i * df params)
             [0 .. SFTno params - 1] (0, 0) = Inr (Fa, Fb)"
    and stat: "F' i = F_statistic params Fa Fb"
    and ret: "returnFaFb params \<longrightarrow>
              map_option (\<lambda>p. p i) Fa_out' = map_option (\<lambda>p. Fa) (Fs_Fa fs) \<and>
              map_option (\<lambda>p. p i) Fb_out' = map_option (\<lambda>p. Fb) (Fs_Fb fs)"
    by blast
  from segments_loop_sums [OF seg]
  have sums: "Fa = (\<Sum>alpha\<leftarrow>[0 .. SFTno params - 1]. complex_of_real (amcoe_a (amcoe params) alpha)
                   * projr (fst (demod_segment maxSFTindex SMALL input params
                                   (f0 params + of_int i * df params) alpha)))"
       "Fb = (\<Sum>alpha\<leftarrow>[0 .. SFTno params - 1]. complex_of_real (amcoe_b (amcoe params) alpha)
                   * projr (fst (demod_segment maxSFTindex SMALL input params
                                   (f0 params + of_int i * df params) alpha)))"
    by simp_all
  have "\<exists>Fa' Fb'. Fs_Fa Fs' = Some Fa' \<and> Fs_Fb Fs' = Some Fb' \<and> Fa' i = Fa \<and> Fb' i = Fb"
    if "returnFaFb params"
  proof -
    from that nonnull obtain p q where pq: "Fs_Fa fs = Some p" "Fs_Fb fs = Some q" by auto
    with that ret obtain p' q' where "Fa_out' = Some p'" "p' i = Fa" "Fb_out' = Some q'" "q' i = Fb"
      by auto
    then show ?thesis by (simp add: Fs')
  qed
  with seg sums stat show ?thesis by (auto simp: Fs')
qed





theorem C4_statistic_stored_per_bin_witness:
  "\<exists>Fs'. TestLALDemod 20 (1 / 10 ^ 6) (Some example_Fs) example_input example_params
            = (None, Some Fs') \<and>
     (0 :: int) \<le> 0 \<and> 0 < imax example_params \<and>
     (\<exists>Fa Fb F'.
           segments_loop 20 (1 / 10 ^ 6) example_input example_params
             (f0 example_params + of_int 0 * df example_params)
             [0 .. SFTno example_params - 1] (0, 0) = Inr (Fa, Fb) \<and>
           Fs_F Fs' = Some F' \<and>
           F' 0 = F_statistic example_params Fa Fb \<and>
           (\<exists>Fa' Fb'. Fs_Fa Fs' = Some Fa' \<and> Fs_Fb Fs' = Some Fb' \<and> Fa' 0 = Fa \<and> Fb' 0 = Fb))"
proof -
  obtain Fs' where run: "TestLALDemod 20 (1 / 10 ^ 6) (Some example_Fs) example_input example_params
            = (None, Some Fs')"
    using example_demod_run [of 20 "1 / 10 ^ 6" example_input] by auto
  have h: "(0 :: int) \<le> 0" "0 < imax example_params" by simp_all
  have r: "returnFaFb example_params" by simp
  from C4_statistic_stored_per_bin [OF run h] obtain Fa Fb F' where
    seg: "segments_loop 20 (1 / 10 ^ 6) example_input example_params
             (f0 example_params + of_int 0 * df example_params)
             [0 .. SFTno example_params - 1] (0, 0) = Inr (Fa, Fb)"
    and F: "Fs_F Fs' = Some F'"
    and st: "F' 0 = F_statistic example_params Fa Fb"
    and ret: "returnFaFb example_params \<longrightarrow>
       (\<exists>Fa' Fb'. Fs_Fa Fs' = Some Fa' \<and> Fs_Fb Fs' = Some Fb' \<and> Fa' 0 = Fa \<and> Fb' 0 = Fb)"
    by (elim exE conjE)
  from ret r have ret': "\<exists>Fa' Fb'. Fs_Fa Fs' = Some Fa' \<and> Fs_Fb Fs' = Some Fb' \<and> Fa' 0 = Fa \<and> Fb' 0 = Fb"
    by (rule mp)
  have "\<exists>Fa Fb F'.
           segments_loop 20 (1 / 10 ^ 6) example_input example_params
             (f0 example_params + of_int 0 * df example_params)
             [0 .. SFTno example_params - 1] (0, 0) = Inr (Fa, Fb) \<and>
           Fs_F Fs' = Some F' \<and>
           F' 0 = F_statistic example_params Fa Fb \<and>
           (\<exists>Fa' Fb'. Fs_Fa Fs' = Some Fa' \<and> Fs_Fb Fs' = Some Fb' \<and> Fa' 0 = Fa \<and> Fb' 0 = Fb)"
    using seg F st ret' by blast
  with run h show ?thesis by blast
qed

end
